theory Spec2Isabelle
  imports Main
begin

section \<open>Strings, errors and JavaScript values\<close>

text \<open>
  JavaScript strings are modelled as \<open>string\<close> (a list of characters).  An \<open>Error\<close>
  object is identified with its constructor and its \<open>message\<close> property, the only
  property the program reads.  \<open>TypeError\<close> is what the engine throws when a method
  is looked up on \<open>undefined\<close>.
\<close>

datatype js_error = Error (message: string) | TypeError (message: string)

datatype jsval = Undefined | Str string

text \<open>The double quote character, as a string.\<close>

definition dq :: string where
  "dq = [CHR 0x22]"

text \<open>
  \<open>s.match(/lit/)\<close> and \<open>s.match('lit')\<close> for a pattern without metacharacters: \<open>lit\<close>
  occurs in \<open>s\<close>.  An alternation \<open>a|b\<close> is the disjunction of two such tests.
\<close>

fun starts_with :: "string \<Rightarrow> string \<Rightarrow> bool" where
  "starts_with s [] = True"
| "starts_with [] (p # ps) = False"
| "starts_with (c # cs) (p # ps) = (c = p \<and> starts_with cs ps)"

fun contains :: "string \<Rightarrow> string \<Rightarrow> bool" where
  "contains [] pat = (pat = [])"
| "contains (c # cs) pat = (starts_with (c # cs) pat \<or> contains cs pat)"

section \<open>Bridge.getDestination\<close>

text \<open>
  \<^verbatim>\<open>remoteDir.replace(/\/$/, '')\<close>: the pattern is anchored at the end of the string and
  has no \<open>g\<close> flag, so the one slash that ends the string, if any, is removed.
\<close>

definition strip_trailing_slash :: "string \<Rightarrow> string" where
  "strip_trailing_slash remoteDir =
     (if remoteDir \<noteq> [] \<and> last remoteDir = CHR ''/'' then butlast remoteDir else remoteDir)"

text \<open>
  \<open>path.basename\<close> belongs to the Node.js runtime; it is a parameter of the model.
\<close>

definition getDestination :: "(string \<Rightarrow> string) \<Rightarrow> string \<Rightarrow> string \<Rightarrow> string" where
  "getDestination basename localFile remoteDir =
     (let bn = basename localFile;
          remoteDir' = strip_trailing_slash remoteDir
      in remoteDir' @ ''/'' @ bn)"

section \<open>Text helpers\<close>

text \<open>\<open>a.join(' ')\<close> on an array of strings.\<close>

fun join_sp :: "string list \<Rightarrow> string" where
  "join_sp [] = []"
| "join_sp [x] = x"
| "join_sp (x # y # ys) = x @ '' '' @ join_sp (y # ys)"

text \<open>\<open>s.split('\n')\<close>: the pieces between line feeds; the result is never empty.\<close>

fun split_nl :: "string \<Rightarrow> string list" where
  "split_nl [] = [[]]"
| "split_nl (c # cs) =
     (if c = CHR 0x0A then [] # split_nl cs
      else (case split_nl cs of l # ls \<Rightarrow> (c # l) # ls | [] \<Rightarrow> [[c]]))"

text \<open>
  The numbers that occur in the program are the results of \<open>parseInt\<close> on a run of
  decimal digits and the ports given as numbers: non-negative integers, or \<open>Infinity\<close>
  for a run of digits too long for a double.  Below \<open>2^53\<close> every integer is a double,
  \<open>parseInt\<close> is exact and the conversion to a string gives the decimal digits.  From
  \<open>2^53\<close> on, \<open>parseInt\<close> rounds and the conversion to a string may shorten the digits
  or use exponent form; what the runtime does there is a parameter of the model.
\<close>

datatype jsnum = Fin nat | Infinity

text \<open>The decimal digits of a natural number.\<close>

function show_nat :: "nat \<Rightarrow> string" where
  "show_nat n =
     (if n < 10 then [''0123456789'' ! n]
      else show_nat (n div 10) @ [''0123456789'' ! (n mod 10)])"
  by pat_completeness auto
termination
  by (relation "measure id") auto

declare show_nat.simps [simp del]

text \<open>
  \<^verbatim>\<open>/PORT (\d+)/\<close>: the leftmost place where \<open>PORT\<close>, a space and at least one decimal
  digit occur; the captured group is the longest run of digits there.
\<close>

definition is_digit :: "char \<Rightarrow> bool" where
  "is_digit c = (c \<in> set ''0123456789'')"

fun match_port :: "string \<Rightarrow> string option" where
  "match_port [] = None"
| "match_port (c # cs) =
     (if starts_with (c # cs) ''PORT '' \<and> takeWhile is_digit (drop 5 (c # cs)) \<noteq> []
      then Some (takeWhile is_digit (drop 5 (c # cs)))
      else match_port cs)"

text \<open>
  The integer that a string of decimal digits denotes, and \<open>parseInt(digits, 10)\<close> on
  a non-empty string of decimal digits: exact below \<open>2^53\<close>, and whatever number the
  runtime gives (\<open>parse_big\<close>) from there on.
\<close>

definition decimal :: "string \<Rightarrow> nat" where
  "decimal ds = foldl (\<lambda>n c. 10 * n + (of_char c - 48)) 0 ds"

definition parseInt :: "(string \<Rightarrow> jsnum) \<Rightarrow> string \<Rightarrow> jsnum" where
  "parseInt parse_big ds =
     (if decimal ds < 9007199254740992 then Fin (decimal ds) else parse_big ds)"

text \<open>
  A number in a string concatenation: the decimal digits below \<open>2^53\<close>, and whatever
  text the runtime gives (\<open>big_to_string\<close>) from there on.
\<close>

definition show_num :: "(jsnum \<Rightarrow> string) \<Rightarrow> jsnum \<Rightarrow> string" where
  "show_num big_to_string x =
     (case x of
        Fin n \<Rightarrow> if n < 9007199254740992 then show_nat n else big_to_string x
      | Infinity \<Rightarrow> big_to_string x)"

text \<open>
  \<open>s.replace(pat, repl)\<close> with a string pattern: only the first occurrence is replaced,
  and in the replacement text \<open>$$\<close>, \<open>$&\<close>, \<open>$`\<close> and \<open>$'\<close> stand for a dollar sign,
  the matched text, the text before and the text after the match.
\<close>

fun expand_repl :: "string \<Rightarrow> string \<Rightarrow> string \<Rightarrow> string \<Rightarrow> string" where
  "expand_repl [] m b a = []"
| "expand_repl [c] m b a = [c]"
| "expand_repl (c # d # r) m b a =
     (if c = CHR ''$'' \<and> d = CHR ''$'' then CHR ''$'' # expand_repl r m b a
      else if c = CHR ''$'' \<and> d = CHR ''&'' then m @ expand_repl r m b a
      else if c = CHR ''$'' \<and> d = CHR 0x60 then b @ expand_repl r m b a
      else if c = CHR ''$'' \<and> d = CHR 0x27 then a @ expand_repl r m b a
      else c # expand_repl (d # r) m b a)"

fun replace_from :: "string \<Rightarrow> string \<Rightarrow> string \<Rightarrow> string \<Rightarrow> string" where
  "replace_from seen [] pat repl =
     (if pat = [] then seen @ expand_repl repl pat seen [] else seen)"
| "replace_from seen (c # cs) pat repl =
     (if starts_with (c # cs) pat
      then seen @ expand_repl repl pat seen (drop (length pat) (c # cs))
             @ drop (length pat) (c # cs)
      else replace_from (seen @ [c]) cs pat repl)"

definition js_replace :: "string \<Rightarrow> string \<Rightarrow> string \<Rightarrow> string" where
  "js_replace s pat repl = replace_from [] s pat repl"

section \<open>Promises, the world and the trace\<close>

text \<open>
  Everything outside the program (the device behind \<open>sdb\<close>, the local file system, the
  browser) is a world of an arbitrary type \<open>'w\<close>; a collaborator is a function that reads
  and changes the world and either fails with an error or returns a value.

  The state threaded through the program is the world together with a trace.  The trace
  records, in order, every call the program makes to a collaborator, every logger call,
  and, as ghost events, every entry into a task command and into one of the Bridge
  methods that the tasks and the fan-outs call (what a mock of that method observes in
  the tests): \<open>root\<close>, \<open>push\<close>, \<open>pushOne\<close>, \<open>install\<close>, \<open>installOne\<close>, \<open>uninstall\<close>,
  \<open>runScript\<close>, \<open>launch\<close>, \<open>portForward\<close> and \<open>runBrowser\<close>.
\<close>

text \<open>The logger methods \<open>ok\<close>, \<open>warn\<close>, \<open>write\<close>, \<open>error\<close> and what they are given.\<close>

datatype level = Ok | Warn | Write | Err

datatype logarg = LStr string | LErr js_error

text \<open>
  A file specification: one path, an array of paths, or an object with a \<open>pattern\<close>
  and an optional \<open>filter\<close>.  A port is a number or a string.
\<close>

datatype filespec = Single string | Many "string list" | Pattern string "string option"

datatype port = PortNum nat | PortStr string

text \<open>The five command functions of the tasks (\<open>launch\<close> serves start, stop and debug).\<close>

datatype cmd = Push | Install | Uninstall | Script | Launch

datatype call =
    C_cmd cmd
  | C_root bool
  | C_push filespec string bool "string option"
  | C_pushOne string string bool "string option"
  | C_install filespec
  | C_installOne string
  | C_uninstall string bool
  | C_runScript string "string list"
  | C_launch string string bool
  | C_portForward port jsnum
  | C_runBrowser string port

datatype event =
    Enter call
  | Sdb_shell string
  | Sdb_push string string
  | Sdb_forward port jsnum
  | Sdb_root bool
  | Lister_list filespec
  | Browser string
  | Get_meta
  | Log level logarg

record 'w state =
  world :: 'w
  trace :: "event list"

type_synonym ('a, 'w) collab = "'w \<Rightarrow> (js_error + 'a) \<times> 'w"

type_synonym ('a, 'w) promise = "'w state \<Rightarrow> (js_error + 'a) \<times> 'w state"

definition resolve :: "'a \<Rightarrow> ('a, 'w) promise" where
  "resolve v s = (Inr v, s)"

definition reject :: "js_error \<Rightarrow> ('a, 'w) promise" where
  "reject e s = (Inl e, s)"

text \<open>\<open>p.then(f)\<close>: \<open>f\<close> runs on fulfilment; a rejection passes through.\<close>

definition then_do :: "('a, 'w) promise \<Rightarrow> ('a \<Rightarrow> ('b, 'w) promise) \<Rightarrow> ('b, 'w) promise" where
  "then_do p f s = (case p s of (Inl e, s') \<Rightarrow> (Inl e, s') | (Inr v, s') \<Rightarrow> f v s')"

text \<open>
  \<open>p.then(f, g)\<close>: \<open>g\<close> handles a rejection of \<open>p\<close> only, not an error thrown by \<open>f\<close>.
\<close>

definition then_else ::
  "('a, 'w) promise \<Rightarrow> ('a \<Rightarrow> ('b, 'w) promise) \<Rightarrow> (js_error \<Rightarrow> ('b, 'w) promise) \<Rightarrow> ('b, 'w) promise" where
  "then_else p f g s = (case p s of (Inl e, s') \<Rightarrow> g e s' | (Inr v, s') \<Rightarrow> f v s')"

text \<open>\<open>p.fail(g)\<close>: \<open>g\<close> runs on rejection; a fulfilment passes through.\<close>

definition fail_do :: "('a, 'w) promise \<Rightarrow> (js_error \<Rightarrow> ('a, 'w) promise) \<Rightarrow> ('a, 'w) promise" where
  "fail_do p g s = (case p s of (Inl e, s') \<Rightarrow> g e s' | (Inr v, s') \<Rightarrow> (Inr v, s'))"

text \<open>
  \<open>p.finally(c)\<close> of the Q library: \<open>c\<close> runs whether \<open>p\<close> was fulfilled or rejected;
  the outcome is that of \<open>p\<close>, unless \<open>c\<close> is rejected, whose error then replaces it.
\<close>

definition finally_do :: "('a, 'w) promise \<Rightarrow> ('b, 'w) promise \<Rightarrow> ('a, 'w) promise" where
  "finally_do p c s =
     (case p s of (r, s') \<Rightarrow>
        (case c s' of (Inl e, s'') \<Rightarrow> (Inl e, s'') | (Inr _, s'') \<Rightarrow> (r, s'')))"

definition emit :: "event \<Rightarrow> 'w state \<Rightarrow> 'w state" where
  "emit e s = s\<lparr>trace := trace s @ [e]\<rparr>"

text \<open>A logger call, or the entry into a method, followed by the rest of the body.\<close>

definition logging :: "level \<Rightarrow> logarg \<Rightarrow> ('a, 'w) promise \<Rightarrow> ('a, 'w) promise" where
  "logging l a p s = p (emit (Log l a) s)"

definition entering :: "call \<Rightarrow> ('a, 'w) promise \<Rightarrow> ('a, 'w) promise" where
  "entering c p s = p (emit (Enter c) s)"

text \<open>A call to a collaborator: recorded, then run on the world.\<close>

definition call_out :: "event \<Rightarrow> ('a, 'w) collab \<Rightarrow> ('a, 'w) promise" where
  "call_out e f s =
     (case f (world (emit e s)) of (r, w') \<Rightarrow> (r, (emit e s)\<lparr>world := w'\<rparr>))"

text \<open>The Bridge-method entries of a trace, in order.\<close>

fun calls :: "event list \<Rightarrow> call list" where
  "calls [] = []"
| "calls (Enter c # es) = c # calls es"
| "calls (e # es) = calls es"

text \<open>The warnings logged in a trace.\<close>

fun warnings :: "event list \<Rightarrow> logarg list" where
  "warnings [] = []"
| "warnings (Log Warn a # es) = a # warnings es"
| "warnings (e # es) = warnings es"

section \<open>SdbWrapper (lib/sdb-wrapper.js)\<close>

text \<open>
  \<open>child_process.exec\<close> calls back with \<open>(err, stdout, stderr)\<close>; \<open>fs.stat\<close> calls back
  with an error or none.  Both belong to the host, and so does the text that the
  runtime gives for a number of \<open>2^53\<close> or more.
\<close>

record exec_out =
  exec_err :: "js_error option"
  exec_stdout :: string
  exec_stderr :: string

record 'w host =
  exec :: "string \<Rightarrow> 'w \<Rightarrow> exec_out \<times> 'w"
  fs_stat :: "string \<Rightarrow> 'w \<Rightarrow> js_error option \<times> 'w"
  host_big_to_string :: "jsnum \<Rightarrow> string"

definition execute :: "'w host \<Rightarrow> string \<Rightarrow> string \<Rightarrow> (string, 'w) collab" where
  "execute h sdbCmd command w =
     (case exec h (sdbCmd @ '' '' @ command) w of (out, w') \<Rightarrow>
        ((case exec_err out of
            Some e \<Rightarrow> Inl e
          | None \<Rightarrow>
              if contains (exec_stdout out) ''command not found''
              then Inl (Error (exec_stdout out))
              else if contains (exec_stdout out) ''No such file or directory''
              then Inl (Error (exec_stdout out))
              else if contains (exec_stderr out) ''failed''
              then Inl (Error (exec_stderr out))
              else Inr (exec_stdout out)), w'))"

definition shell :: "'w host \<Rightarrow> string \<Rightarrow> string \<Rightarrow> (string, 'w) collab" where
  "shell h sdbCmd remoteCommand =
     execute h sdbCmd (''shell '' @ dq @ remoteCommand @ dq)"

definition show_port :: "(jsnum \<Rightarrow> string) \<Rightarrow> port \<Rightarrow> string" where
  "show_port big_to_string p =
     (case p of PortNum n \<Rightarrow> show_num big_to_string (Fin n) | PortStr s \<Rightarrow> s)"

definition sdb_push :: "'w host \<Rightarrow> string \<Rightarrow> string \<Rightarrow> string \<Rightarrow> (string, 'w) collab" where
  "sdb_push h sdbCmd localFile remotePath w =
     (case fs_stat h localFile w of
        (Some e, w') \<Rightarrow> (Inl e, w')
      | (None, w') \<Rightarrow> execute h sdbCmd (''push '' @ localFile @ '' '' @ remotePath) w')"

definition sdb_forward :: "'w host \<Rightarrow> string \<Rightarrow> port \<Rightarrow> jsnum \<Rightarrow> (string, 'w) collab" where
  "sdb_forward h sdbCmd localPort remotePort =
     execute h sdbCmd
       (''forward tcp:'' @ show_port (host_big_to_string h) localPort
          @ '' tcp:'' @ show_num (host_big_to_string h) remotePort)"

definition sdb_root :: "'w host \<Rightarrow> string \<Rightarrow> bool \<Rightarrow> (string, 'w) collab" where
  "sdb_root h sdbCmd on = execute h sdbCmd (''root '' @ (if on then ''on'' else ''off''))"

text \<open>The wrapper as the Bridge sees it: an object with four methods.\<close>

record 'w sdb_wrapper =
  shellF :: "string \<Rightarrow> (string, 'w) collab"
  pushF :: "string \<Rightarrow> string \<Rightarrow> (string, 'w) collab"
  forwardF :: "port \<Rightarrow> jsnum \<Rightarrow> (string, 'w) collab"
  rootF :: "bool \<Rightarrow> (string, 'w) collab"

definition SdbWrapper :: "'w host \<Rightarrow> string \<Rightarrow> 'w sdb_wrapper" where
  "SdbWrapper h sdbCmd =
     \<lparr>shellF = shell h sdbCmd, pushF = sdb_push h sdbCmd,
      forwardF = sdb_forward h sdbCmd, rootF = sdb_root h sdbCmd\<rparr>"

section \<open>Bridge\<close>

text \<open>
  The configuration a Bridge is built from.  The logger is the trace.  An absent
  \<open>browserWrapper\<close> or \<open>tizenAppScriptPath\<close> is \<open>None\<close>; \<open>path.basename\<close> of the Node.js
  runtime is carried along as \<open>basename\<close>, and the text the runtime gives for a number
  of \<open>2^53\<close> or more as \<open>big_to_string\<close>.
\<close>

record 'w bridge =
  sdbWrapper :: "'w sdb_wrapper"
  fileLister :: "filespec \<Rightarrow> (string list, 'w) collab"
  browserWrapper :: "(string \<Rightarrow> (string, 'w) collab) option"
  tizenAppScriptPath :: "string option"
  basename :: "string \<Rightarrow> string"
  big_to_string :: "jsnum \<Rightarrow> string"

definition scriptInterpreterPath :: string where
  "scriptInterpreterPath = ''/bin/sh''"

text \<open>Truthiness of an optional string: \<open>undefined\<close>, \<open>null\<close> and \<open>''\<close> are falsy.\<close>

definition truthy :: "string option \<Rightarrow> bool" where
  "truthy x = (case x of None \<Rightarrow> False | Some v \<Rightarrow> v \<noteq> [])"

definition fileExists :: "'w bridge \<Rightarrow> string \<Rightarrow> (bool, 'w) promise" where
  "fileExists br remotePath =
     (let cmd = ''stat '' @ remotePath
      in fail_do
           (then_do (call_out (Sdb_shell cmd) (shellF (sdbWrapper br) cmd))
              (\<lambda>_. resolve True))
           (\<lambda>err.
              if message err = ''No such file or directory'' then resolve False
              else logging Err (LErr err) (reject err)))"

definition chmod :: "'w bridge \<Rightarrow> string \<Rightarrow> string \<Rightarrow> (unit, 'w) promise" where
  "chmod br remotePath chmod_str =
     (let cmd = ''chmod '' @ chmod_str @ '' '' @ remotePath
      in fail_do
           (then_do (call_out (Sdb_shell cmd) (shellF (sdbWrapper br) cmd))
              (\<lambda>stdout.
                 logging Write (LStr stdout)
                   (logging Ok (LStr (''did chmod '' @ chmod_str @ '' on '' @ remotePath))
                      (resolve ()))))
           (\<lambda>err.
              logging Err (LStr (message err))
                (logging Err (LStr (''could not chmod '' @ remotePath))
                   (reject err))))"

text \<open>
  The two clean-up replacements of \<open>listRemoteFiles\<close>: \<^verbatim>\<open>/\r/g\<close> removes every carriage
  return; \<^verbatim>\<open>/^\n$/g\<close> has no \<open>m\<close> flag, so it matches only a string that is exactly one
  line feed.
\<close>

definition clean_stdout :: "string \<Rightarrow> string" where
  "clean_stdout stdout =
     (let stdout1 = filter (\<lambda>c. c \<noteq> CHR 0x0D) stdout;
          stdout2 = (if stdout1 = [CHR 0x0A] then [] else stdout1)
      in stdout2)"

definition listRemoteFiles :: "'w bridge \<Rightarrow> filespec \<Rightarrow> (string list, 'w) promise" where
  "listRemoteFiles br remoteFiles =
     (case remoteFiles of
        Single f \<Rightarrow> resolve [f]
      | Many fs \<Rightarrow> resolve fs
      | Pattern pat filt \<Rightarrow>
          (let cmd = ''ls -1 -c '' @ pat
           in fail_do
                (then_do (call_out (Sdb_shell cmd) (shellF (sdbWrapper br) cmd))
                   (\<lambda>stdout.
                      let fileArray = split_nl (clean_stdout stdout)
                      in if filt = Some ''latest'' then resolve [hd fileArray]
                         else resolve fileArray))
                (\<lambda>err.
                   logging Err (LStr ''could not run ls on device'')
                     (logging Err (LStr (message err))
                        (reject err)))))"

definition pushRaw :: "'w bridge \<Rightarrow> string \<Rightarrow> string \<Rightarrow> (unit, 'w) promise" where
  "pushRaw br localFile remotePath =
     fail_do
       (then_do (call_out (Sdb_push localFile remotePath) (pushF (sdbWrapper br) localFile remotePath))
          (\<lambda>_. logging Ok (LStr (''pushed local:'' @ localFile @ '' to remote:'' @ remotePath))
                 (resolve ())))
       (\<lambda>err.
          if contains (message err) ''failed to copy''
             \<or> contains (message err) ''cannot stat''
             \<or> contains (message err) ''device not found''
          then logging Err (LStr (message err)) (reject (Error ''could not push file to device''))
          else reject err)"

definition pushOne ::
  "'w bridge \<Rightarrow> string \<Rightarrow> string \<Rightarrow> bool \<Rightarrow> string option \<Rightarrow> (unit, 'w) promise" where
  "pushOne br localFile remoteDir overwrite chmod_opt =
     entering (C_pushOne localFile remoteDir overwrite chmod_opt)
       (let remotePath = getDestination (basename br) localFile remoteDir;
            setChmod = (\<lambda>_::unit.
               if truthy chmod_opt then chmod br remotePath (the chmod_opt) else resolve ())
        in if overwrite then then_do (pushRaw br localFile remotePath) setChmod
           else then_do (fileExists br remotePath)
                  (\<lambda>exists.
                     if exists
                     then logging Warn
                            (LStr (''not pushing to '' @ remotePath @ '' as file exists ''
                                     @ ''and overwrite is false''))
                            (resolve ())
                     else then_do (pushRaw br localFile remotePath) setChmod))"

text \<open>
  \<open>async.each(arr, iterator, callback)\<close>: the iterator is started on every item
  before any of them completes; the final callback is called once, with the first
  error reported, or with none when every item is done.  The operations started are
  not cancelled by an error.  The model runs the per-item operations to completion
  one after the other in list order (one serialisation of the concurrent run), keeps
  every outcome in \<open>fan_out\<close>, and then calls the callback.
\<close>

fun fan_out :: "('a \<Rightarrow> (unit, 'w) promise) \<Rightarrow> 'a list \<Rightarrow> 'w state \<Rightarrow> (js_error + unit) list \<times> 'w state" where
  "fan_out f [] s = ([], s)"
| "fan_out f (x # xs) s =
     (case f x s of (r, s') \<Rightarrow> (case fan_out f xs s' of (rs, s'') \<Rightarrow> (r # rs, s'')))"

fun first_error :: "(js_error + unit) list \<Rightarrow> js_error option" where
  "first_error [] = None"
| "first_error (Inl e # rs) = Some e"
| "first_error (Inr _ # rs) = first_error rs"

definition each ::
  "('a \<Rightarrow> (unit, 'w) promise) \<Rightarrow> 'a list \<Rightarrow> (js_error option \<Rightarrow> ('b, 'w) promise) \<Rightarrow> ('b, 'w) promise" where
  "each iterator arr callback s =
     (case fan_out iterator arr s of (rs, s') \<Rightarrow> callback (first_error rs) s')"

definition push ::
  "'w bridge \<Rightarrow> filespec \<Rightarrow> string \<Rightarrow> bool \<Rightarrow> string option \<Rightarrow> (unit, 'w) promise" where
  "push br localFiles remoteDir overwrite chmod_opt =
     entering (C_push localFiles remoteDir overwrite chmod_opt)
       (then_do (call_out (Lister_list localFiles) (fileLister br localFiles))
          (\<lambda>filesToPush.
             each (\<lambda>localFile. pushOne br localFile remoteDir overwrite chmod_opt) filesToPush
               (\<lambda>err.
                  case err of
                    Some e \<Rightarrow> logging Err (LErr e) (reject (Error ''error while pushing files''))
                  | None \<Rightarrow> logging Ok (LStr ''all files pushed'') (resolve ()))))"

definition runScript :: "'w bridge \<Rightarrow> string \<Rightarrow> string list \<Rightarrow> (string, 'w) promise" where
  "runScript br script args =
     entering (C_runScript script args)
       (let remoteScript = scriptInterpreterPath @ '' '' @ script;
            cmd = (if args \<noteq> [] then remoteScript @ '' '' @ join_sp args else remoteScript)
        in logging Ok (LStr (''running: '' @ cmd))
             (fail_do
                (then_do (call_out (Sdb_shell cmd) (shellF (sdbWrapper br) cmd))
                   (\<lambda>stdout. logging Write (LStr stdout) (resolve stdout)))
                (\<lambda>err.
                   logging Err (LStr (message err))
                     (reject (Error (''error occurred while running command '' @ cmd))))))"

definition runTizenAppScript :: "'w bridge \<Rightarrow> string \<Rightarrow> string list \<Rightarrow> (string, 'w) promise" where
  "runTizenAppScript br command args =
     (if \<not> truthy (tizenAppScriptPath br)
      then reject (Error (''cannot run tizen-app.sh as tizenAppScriptPath ''
                            @ ''is not set on Bridge''))
      else
        (let script = the (tizenAppScriptPath br);
             cmd0 = script @ '' '' @ command;
             cmd = (if args \<noteq> [] then cmd0 @ '' '' @ join_sp args else cmd0)
         in call_out (Sdb_shell cmd) (shellF (sdbWrapper br) cmd)))"

definition installOne :: "'w bridge \<Rightarrow> string \<Rightarrow> (unit, 'w) promise" where
  "installOne br remoteFile =
     entering (C_installOne remoteFile)
       (then_do (runTizenAppScript br ''install'' [remoteFile])
          (\<lambda>stdout.
             logging Write (LStr stdout)
               (if contains stdout ''key[end] val[fail]''
                then logging Err (LStr (''error installing package '' @ remoteFile))
                       (logging Err (LStr stdout)
                          (reject (Error ''installation failed'')))
                else logging Ok (LStr (''installed package '' @ remoteFile)) (resolve ()))))"

definition install :: "'w bridge \<Rightarrow> filespec \<Rightarrow> (unit, 'w) promise" where
  "install br remoteFiles =
     entering (C_install remoteFiles)
       (then_do (listRemoteFiles br remoteFiles)
          (\<lambda>filesToInstall.
             each (installOne br) filesToInstall
               (\<lambda>err.
                  case err of
                    Some e \<Rightarrow>
                      logging Err (LErr e) (reject (Error ''error while installing package''))
                  | None \<Rightarrow>
                      if filesToInstall = []
                      then logging Warn (LStr ''no packages to install'') (resolve ())
                      else logging Ok (LStr ''all packages installed'') (resolve ()))))"

definition uninstall :: "'w bridge \<Rightarrow> string \<Rightarrow> bool \<Rightarrow> (unit, 'w) promise" where
  "uninstall br packageName stopOnFailure =
     entering (C_uninstall packageName stopOnFailure)
       (let errorHandler = (\<lambda>err.
              if stopOnFailure then reject err
              else logging Warn (LStr ''could not uninstall package; continuing anyway'')
                     (resolve ()))
        in fail_do
             (then_do (runTizenAppScript br ''uninstall'' [packageName])
                (\<lambda>stdout.
                   logging Write (LStr stdout)
                     (if contains stdout ''not installed'' \<or> contains stdout ''failed''
                      then errorHandler
                             (Error (''package '' @ packageName @ '' could not be uninstalled''))
                      else logging Ok (LStr (''package with name '' @ packageName @ '' uninstalled''))
                             (resolve ()))))
             errorHandler)"

text \<open>
  \<open>launch\<close> is fulfilled with the script's output on success and with \<open>undefined\<close>
  (\<open>None\<close>) when \<open>errorHandler\<close> returns instead of throwing.
\<close>

definition launch :: "'w bridge \<Rightarrow> string \<Rightarrow> string \<Rightarrow> bool \<Rightarrow> (string option, 'w) promise" where
  "launch br subcommand appUri stopOnFailure =
     entering (C_launch subcommand appUri stopOnFailure)
       (let actionDone = (if subcommand = ''stop'' then ''stopped'' else ''launched'');
            errorHandler = (\<lambda>err.
              let warning = ''app with id '' @ appUri @ '' could not be '' @ actionDone
              in if stopOnFailure
                 then logging Err (LStr warning) (logging Err (LStr (message err)) (reject err))
                 else logging Warn (LStr (warning @ ''; continuing anyway'')) (resolve None))
        in then_else (runTizenAppScript br subcommand [appUri])
             (\<lambda>stdout.
                if contains stdout ''running'' \<or> contains stdout ''does not exist''
                   \<or> contains stdout ''failed''
                then errorHandler (Error stdout)
                else logging Write (LStr stdout)
                       (logging Ok (LStr (''app with id '' @ appUri @ '' '' @ actionDone))
                          (resolve (Some stdout))))
             errorHandler)"

definition getDebugUrl :: "'w bridge \<Rightarrow> port \<Rightarrow> string" where
  "getDebugUrl br localPort =
     ''http://localhost:'' @ show_port (big_to_string br) localPort @ ''/inspector.html?page=1''"

definition runBrowser :: "'w bridge \<Rightarrow> string \<Rightarrow> port \<Rightarrow> (string, 'w) promise" where
  "runBrowser br browserCmd localPort =
     entering (C_runBrowser browserCmd localPort)
       (let url = getDebugUrl br localPort
        in case browserWrapper br of
             Some bw \<Rightarrow>
               (let browserCmd' = js_replace browserCmd ''%URL%'' url
                in fail_do
                     (then_do (call_out (Browser browserCmd') (bw browserCmd'))
                        (\<lambda>stdout. logging Write (LStr stdout) (resolve stdout)))
                     (\<lambda>err. logging Err (LStr (message err)) (reject err)))
           | None \<Rightarrow>
               reject (Error ''cannot run browser: no browserWrapper configured for Bridge''))"

definition portForward :: "'w bridge \<Rightarrow> port \<Rightarrow> jsnum \<Rightarrow> (string, 'w) promise" where
  "portForward br localPort remotePort =
     entering (C_portForward localPort remotePort)
       (fail_do
          (then_do (call_out (Sdb_forward localPort remotePort)
                      (forwardF (sdbWrapper br) localPort remotePort))
             (\<lambda>stdout.
                let url = getDebugUrl br localPort
                in logging Ok (LStr (''app is ready for debugging at '' @ [CHR 0x0A] @ url))
                     (resolve stdout)))
          (\<lambda>err.
             logging Err (LStr (message err))
               (logging Err (LStr ''could not forward local port to remote port'')
                  (reject err))))"

definition root :: "'w bridge \<Rightarrow> bool \<Rightarrow> (unit, 'w) promise" where
  "root br on =
     entering (C_root on)
       (let state = (if on then ''on'' else ''off'')
        in fail_do
             (then_do (call_out (Sdb_root on) (rootF (sdbWrapper br) on))
                (\<lambda>stdout.
                   logging Write (LStr stdout)
                     (if on
                      then logging Warn
                             (LStr (''*** called '' @ dq @ ''sdb root '' @ state @ dq
                                      @ ''; commands now running as root ***''))
                             (resolve ())
                      else logging Ok
                             (LStr (''*** called '' @ dq @ ''sdb root '' @ state @ dq
                                      @ ''; commands no longer running as root ***''))
                             (resolve ()))))
             (\<lambda>err. logging Err (LStr (message err)) (reject err)))"

section \<open>Tasks\<close>

text \<open>
  The application metadata that \<open>tizenConfig.getMeta()\<close> is fulfilled with, and the data
  object of one task invocation.  An absent property is \<open>None\<close>.  The property \<open>id\<close> of
  the metadata is the field \<open>app_id\<close>, and the property \<open>chmod\<close> of the data is the field
  \<open>chmod_prop\<close>, since \<open>id\<close> and \<open>chmod\<close> name other constants here.
\<close>

record app_meta =
  app_id :: string
  uri :: string
  packageName :: string
  content :: string

record task_data =
  action :: "string option"
  asRoot :: "bool option"
  localFiles :: "filespec option"
  remoteDir :: "string option"
  overwrite :: "bool option"
  chmod_prop :: "string option"
  remoteFiles :: "filespec option"
  stopOnFailure :: "bool option"
  remoteScript :: "string option"
  args :: "string list option"
  localPort :: "port option"
  browserCmd :: "string option"

text \<open>
  What \<open>create(config)\<close> closes over: the Bridge, the \<open>getMeta\<close> method of the
  \<open>tizenConfig\<close> object (a promise in this version of the tasks), the message of the
  \<open>TypeError\<close> that the engine throws for \<open>undefined.match(...)\<close>, and the number that
  the runtime's \<open>parseInt\<close> gives for digits that denote \<open>2^53\<close> or more.
\<close>

record 'w tasks =
  bridge :: "'w bridge"
  tizenConfig_getMeta :: "(app_meta, 'w) collab"
  undefined_match_message :: string
  parse_big :: "string \<Rightarrow> jsnum"

text \<open>Truthiness of a file specification and of a port: \<open>''\<close> and \<open>0\<close> are falsy.\<close>

definition truthy_spec :: "filespec option \<Rightarrow> bool" where
  "truthy_spec x = (case x of None \<Rightarrow> False | Some (Single f) \<Rightarrow> f \<noteq> [] | Some _ \<Rightarrow> True)"

definition truthy_port :: "port option \<Rightarrow> bool" where
  "truthy_port x =
     (case x of None \<Rightarrow> False | Some (PortNum n) \<Rightarrow> n \<noteq> 0 | Some (PortStr p) \<Rightarrow> p \<noteq> [])"

definition task_push :: "'w tasks \<Rightarrow> task_data \<Rightarrow> (jsval, 'w) promise" where
  "task_push t data =
     (if \<not> truthy_spec (localFiles data)
      then reject (Error (''tizen '' @ dq @ ''push'' @ dq @ '' action needs a localFiles property''))
      else if \<not> truthy (remoteDir data)
      then reject (Error (''tizen '' @ dq @ ''push'' @ dq @ '' action needs a remoteDir property''))
      else
        (let overwrite' = (if overwrite data = Some False then False else True);
             chmod' = (if truthy (chmod_prop data) then chmod_prop data else None)
         in then_do (push (bridge t) (the (localFiles data)) (the (remoteDir data)) overwrite' chmod')
              (\<lambda>_. resolve Undefined)))"

definition task_install :: "'w tasks \<Rightarrow> task_data \<Rightarrow> (jsval, 'w) promise" where
  "task_install t data =
     (if \<not> truthy_spec (remoteFiles data)
      then reject (Error (''tizen '' @ dq @ ''install'' @ dq @ '' action needs a remoteFiles property''))
      else then_do (install (bridge t) (the (remoteFiles data))) (\<lambda>_. resolve Undefined))"

definition task_uninstall :: "'w tasks \<Rightarrow> task_data \<Rightarrow> (jsval, 'w) promise" where
  "task_uninstall t data =
     (let stopOnFailure' = (if stopOnFailure data = Some True then True else False)
      in then_do (call_out Get_meta (tizenConfig_getMeta t))
           (\<lambda>meta. then_do (uninstall (bridge t) (packageName meta) stopOnFailure')
                      (\<lambda>_. resolve Undefined)))"

definition task_script :: "'w tasks \<Rightarrow> task_data \<Rightarrow> (jsval, 'w) promise" where
  "task_script t data =
     (if \<not> truthy (remoteScript data)
      then reject (Error (''tizen '' @ dq @ ''script'' @ dq @ '' action needs a remoteScript property''))
      else
        (let args0 = (case args data of Some a \<Rightarrow> a | None \<Rightarrow> [])
         in then_do (call_out Get_meta (tizenConfig_getMeta t))
              (\<lambda>meta.
                 let args' = [packageName meta, app_id meta] @ args0
                 in then_do (runScript (bridge t) (the (remoteScript data)) args')
                      (\<lambda>out. resolve (Str out)))))"

definition task_launch :: "'w tasks \<Rightarrow> task_data \<Rightarrow> string \<Rightarrow> (jsval, 'w) promise" where
  "task_launch t data subcommand =
     (let localPort' = (if truthy_port (localPort data) then the (localPort data)
                        else PortStr ''8888'');
          browserCmd' = (if truthy (browserCmd data) then browserCmd data else None);
          stopOnFailure' = (if stopOnFailure data = Some True then True else False)
      in then_do (call_out Get_meta (tizenConfig_getMeta t))
           (\<lambda>meta.
              then_do (launch (bridge t) subcommand (app_id meta) stopOnFailure')
                (\<lambda>result.
                   if subcommand = ''debug''
                   then (case result of
                           None \<Rightarrow> reject (TypeError (undefined_match_message t))
                         | Some out \<Rightarrow>
                             (case match_port out of
                                None \<Rightarrow> reject (Error ''no remote port available for debugging'')
                              | Some digits \<Rightarrow>
                                  (let remotePort = parseInt (parse_big t) digits
                                   in then_do (portForward (bridge t) localPort' remotePort)
                                        (\<lambda>_.
                                           case browserCmd' of
                                             Some b \<Rightarrow>
                                               then_do (runBrowser (bridge t) b localPort')
                                                 (\<lambda>out. resolve (Str out))
                                           | None \<Rightarrow> resolve Undefined))))
                   else resolve Undefined)))"

text \<open>\<open>cmd.apply(null, args)\<close>: the command function chosen for the action is entered.\<close>

definition apply_cmd :: "'w tasks \<Rightarrow> cmd \<Rightarrow> task_data \<Rightarrow> string \<Rightarrow> (jsval, 'w) promise" where
  "apply_cmd t c data act =
     entering (C_cmd c)
       (case c of
          Push \<Rightarrow> task_push t data
        | Install \<Rightarrow> task_install t data
        | Uninstall \<Rightarrow> task_uninstall t data
        | Script \<Rightarrow> task_script t data
        | Launch \<Rightarrow> task_launch t data act)"

text \<open>
  The choice of the command function and of the root flag in \<open>tizenTask\<close>: \<open>install\<close>
  sets the flag whatever the caller asked for.
\<close>

definition select_cmd :: "string \<Rightarrow> bool \<Rightarrow> cmd option \<times> bool" where
  "select_cmd act asRoot0 =
     (if act = ''push'' then (Some Push, asRoot0)
      else if act = ''install'' then (Some Install, True)
      else if act = ''uninstall'' then (Some Uninstall, asRoot0)
      else if act = ''script'' then (Some Script, asRoot0)
      else if act = ''start'' \<or> act = ''stop'' \<or> act = ''debug'' then (Some Launch, asRoot0)
      else (None, asRoot0))"

definition tizenTask :: "'w tasks \<Rightarrow> task_data \<Rightarrow> (jsval, 'w) promise" where
  "tizenTask t data =
     (let asRoot0 = (case asRoot data of Some b \<Rightarrow> b | None \<Rightarrow> False)
      in if \<not> truthy (action data)
         then reject (Error ''tizen task requires action argument'')
         else
           (let act = the (action data)
            in case select_cmd act asRoot0 of
                 (None, _) \<Rightarrow>
                   reject (Error (''action '' @ dq @ act @ dq @ '' was not recognised as valid''))
               | (Some c, asRoot') \<Rightarrow>
                   if asRoot'
                   then finally_do
                          (then_do (root (bridge t) True) (\<lambda>_. apply_cmd t c data act))
                          (root (bridge t) False)
                   else apply_cmd t c data act))"

section \<open>TizenConfig (lib/tizen-config.js)\<close>

text \<open>
  The config object has the two properties \<open>configFile\<close> and \<open>configParsed\<close>.  Reading
  the file and turning its XML into the metadata (\<open>fs.readFileSync\<close>, \<open>xml2json\<close>,
  \<open>JSON.parse\<close> and the property accesses) may each throw; they are functions of the
  environment; \<open>parse_widget\<close> stands for everything between the file content and the
  metadata object.  The ghost counters \<open>reads\<close>, \<open>parses\<close> and \<open>stores\<close> count the calls
  of \<open>readFileSync\<close>, the times the content of the file was parsed (whether or not
  that ended in an error), and the assignments to \<open>configParsed\<close>.
\<close>

record 'w tizen_config =
  configFile :: "string option"
  configParsed :: "app_meta option"
  fs_world :: 'w
  reads :: nat
  parses :: nat
  stores :: nat

record 'w config_env =
  readFileSync :: "string option \<Rightarrow> (string, 'w) collab"
  parse_widget :: "string \<Rightarrow> js_error + app_meta"

definition TizenConfig :: "string option \<Rightarrow> 'w \<Rightarrow> 'w tizen_config" where
  "TizenConfig config_configFile w =
     \<lparr>configFile = (if truthy config_configFile then config_configFile else Some ''config.xml''),
      configParsed = None, fs_world = w, reads = 0, parses = 0, stores = 0\<rparr>"

definition getMeta :: "'w config_env \<Rightarrow> 'w tizen_config \<Rightarrow> (js_error + app_meta) \<times> 'w tizen_config" where
  "getMeta env this =
     (case configParsed this of
        Some m \<Rightarrow> (Inr m, this)
      | None \<Rightarrow>
          (case readFileSync env (configFile this) (fs_world this) of
             (Inl e, w') \<Rightarrow> (Inl e, this\<lparr>fs_world := w', reads := reads this + 1\<rparr>)
           | (Inr file_content, w') \<Rightarrow>
               (case parse_widget env file_content of
                  Inl e \<Rightarrow>
                    (Inl e, this\<lparr>fs_world := w', reads := reads this + 1,
                                 parses := parses this + 1\<rparr>)
                | Inr m \<Rightarrow>
                    (Inr m, this\<lparr>configParsed := Some m, fs_world := w',
                                 reads := reads this + 1, parses := parses this + 1,
                                 stores := stores this + 1\<rparr>))))"

text \<open>
  What a client can do with a config object: call \<open>getMeta\<close>, or assign to its
  \<open>configFile\<close> property; the file system may change in between.
\<close>

datatype 'w config_op = GetMeta | SetConfigFile "string option" | TouchFiles "'w \<Rightarrow> 'w"

fun run_ops ::
  "'w config_env \<Rightarrow> 'w config_op list \<Rightarrow> 'w tizen_config \<Rightarrow> (js_error + app_meta) list \<times> 'w tizen_config" where
  "run_ops env [] this = ([], this)"
| "run_ops env (GetMeta # ops) this =
     (case getMeta env this of (r, this') \<Rightarrow>
        (case run_ops env ops this' of (rs, this'') \<Rightarrow> (r # rs, this'')))"
| "run_ops env (SetConfigFile f # ops) this = run_ops env ops (this\<lparr>configFile := f\<rparr>)"
| "run_ops env (TouchFiles g # ops) this = run_ops env ops (this\<lparr>fs_world := g (fs_world this)\<rparr>)"

section \<open>Failure of the device script, and a scripted host\<close>

text \<open>
  What \<open>uninstall\<close> and \<open>launch\<close> treat as a failure of the device script: the remote
  call was rejected, or its output matches \<^verbatim>\<open>not installed|failed\<close>, respectively
  \<^verbatim>\<open>running|does not exist|failed\<close>.
\<close>

definition uninstall_failure :: "js_error + string \<Rightarrow> bool" where
  "uninstall_failure r =
     (case r of Inl e \<Rightarrow> True
      | Inr out \<Rightarrow> contains out ''not installed'' \<or> contains out ''failed'')"

definition launch_failure :: "js_error + string \<Rightarrow> bool" where
  "launch_failure r =
     (case r of Inl e \<Rightarrow> True
      | Inr out \<Rightarrow> contains out ''running'' \<or> contains out ''does not exist''
                    \<or> contains out ''failed'')"

text \<open>
  A host for concrete runs: \<open>exec\<close> answers the command lines listed in a script and
  answers every other one with empty output and no error; every local file exists;
  no number of \<open>2^53\<close> or more occurs in the runs, and the functions for them are
  constant.
  The Bridge on top of it uses the real \<open>SdbWrapper\<close> with the command \<open>sdb\<close>, a file
  lister for strings and arrays, and the text after the last slash as base name.
\<close>

definition silent :: exec_out where
  "silent = \<lparr>exec_err = None, exec_stdout = [], exec_stderr = []\<rparr>"

definition prints :: "string \<Rightarrow> exec_out" where
  "prints out = \<lparr>exec_err = None, exec_stdout = out, exec_stderr = []\<rparr>"

definition dies :: "string \<Rightarrow> exec_out" where
  "dies msg = \<lparr>exec_err = Some (Error msg), exec_stdout = [], exec_stderr = []\<rparr>"

definition scripted_host :: "(string \<times> exec_out) list \<Rightarrow> unit host" where
  "scripted_host script =
     \<lparr>exec = (\<lambda>cmd w. (case map_of script cmd of Some out \<Rightarrow> out | None \<Rightarrow> silent, w)),
      fs_stat = (\<lambda>f w. (None, w)),
      host_big_to_string = (\<lambda>x. ''Infinity'')\<rparr>"

definition scripted_bridge :: "(string \<times> exec_out) list \<Rightarrow> unit bridge" where
  "scripted_bridge script =
     \<lparr>sdbWrapper = SdbWrapper (scripted_host script) ''sdb'',
      fileLister = (\<lambda>spec w.
         (case spec of Single f \<Rightarrow> Inr [f] | Many fs \<Rightarrow> Inr fs
          | Pattern p f \<Rightarrow> Inl (Error ''no glob''), w)),
      browserWrapper = None,
      tizenAppScriptPath = Some ''/tmp/tizen-app.sh'',
      basename = (\<lambda>p. rev (takeWhile (\<lambda>c. c \<noteq> CHR ''/'') (rev p))),
      big_to_string = (\<lambda>x. ''Infinity'')\<rparr>"

definition some_meta :: app_meta where
  "some_meta =
     \<lparr>app_id = ''someid'', uri = ''someuri'', packageName = ''somepkg'',
      content = ''index.html''\<rparr>"

definition scripted_tasks :: "(string \<times> exec_out) list \<Rightarrow> unit tasks" where
  "scripted_tasks script =
     \<lparr>bridge = scripted_bridge script,
      tizenConfig_getMeta = (\<lambda>w. (Inr some_meta, w)),
      undefined_match_message = ''Cannot read property 'match' of undefined'',
      parse_big = (\<lambda>ds. Infinity)\<rparr>"

definition no_data :: task_data where
  "no_data =
     \<lparr>action = None, asRoot = None, localFiles = None, remoteDir = None, overwrite = None,
      chmod_prop = None, remoteFiles = None, stopOnFailure = None, remoteScript = None,
      args = None, localPort = None, browserCmd = None\<rparr>"

definition start_state :: "unit state" where
  "start_state = \<lparr>world = (), trace = []\<rparr>"

text \<open>Scripts for the concrete runs below.\<close>

definition complains :: "string \<Rightarrow> exec_out" where
  "complains msg = \<lparr>exec_err = None, exec_stdout = [], exec_stderr = msg\<rparr>"

definition refusing_root :: "(string \<times> exec_out) list" where
  "refusing_root = [(''sdb root on'', dies ''Command failed: sdb root on'')]"

definition missing_file :: "(string \<times> exec_out) list" where
  "missing_file =
     [(''sdb shell '' @ dq @ ''stat /tmp/foo.txt'' @ dq,
       prints ''stat: cannot stat '/tmp/foo.txt': No such file or directory'')]"


definition failing_device_script :: "(string \<times> exec_out) list" where
  "failing_device_script =
     [(''sdb shell '' @ dq @ ''/tmp/tizen-app.sh uninstall somepkg'' @ dq,
       prints ''package not installed''),
      (''sdb shell '' @ dq @ ''/tmp/tizen-app.sh start someid'' @ dq,
       prints ''app does not exist''),
      (''sdb shell '' @ dq @ ''/tmp/tizen-app.sh debug someid'' @ dq,
       prints ''app is already running'')]"

definition debug_ready :: "(string \<times> exec_out) list" where
  "debug_ready =
     [(''sdb shell '' @ dq @ ''/tmp/tizen-app.sh debug someid'' @ dq, prints ''PORT 1234'')]"

definition blank_listing :: "(string \<times> exec_out) list" where
  "blank_listing =
     [(''sdb shell '' @ dq @ ''ls -1 -c /tmp/*.wgt'' @ dq,
       prints [CHR 0x0D, CHR 0x0A, CHR 0x0D, CHR 0x0A])]"

text \<open>
  A configuration environment for concrete runs: only \<open>config.xml\<close> can be read, and
  every document parses to the same metadata.
\<close>

definition single_file_env :: "unit config_env" where
  "single_file_env =
     \<lparr>readFileSync = (\<lambda>path w.
         (if path = Some ''config.xml'' then Inr ''<widget/>''
          else Inl (Error ''ENOENT''), w)),
      parse_widget = (\<lambda>doc. Inr some_meta)\<rparr>"

text \<open>
  A second one, in which the file can be read but its content does not parse.
\<close>

definition broken_document_env :: "unit config_env" where
  "broken_document_env =
     \<lparr>readFileSync = (\<lambda>path w. (Inr ''<widget'', w)),
      parse_widget = (\<lambda>doc. Inl (Error ''parse error''))\<rparr>"

section \<open>Properties of traces\<close>

text \<open>
  A promise grows the trace when it only appends to it; it is quiet when it appends
  no entry of a Bridge method or task command.
\<close>

definition grows :: "('a, 'w) promise \<Rightarrow> bool" where
  "grows p = (\<forall>s. \<exists>ext. trace (snd (p s)) = trace s @ ext)"

definition quiet :: "('a, 'w) promise \<Rightarrow> bool" where
  "quiet p = (\<forall>s. calls (trace (snd (p s))) = calls (trace s))"

section \<open>Destination paths\<close>

lemma strip_trailing_slash_snoc: "strip_trailing_slash (d @ ''/'') = d"
  by (simp add: strip_trailing_slash_def)

text \<open>
  Claim C6.  \<open>getDestination\<close> is a total function of its two strings (and of
  \<open>path.basename\<close>).  When the remote directory ends in one or more slashes, exactly
  one of them is removed, however many there are; when it ends in none, nothing is
  removed.  The result is the directory so stripped, a slash, and the base name of the
  local file.
\<close>

theorem getDestination_strips_one_slash:
  "getDestination bn l (d @ replicate (Suc n) (CHR ''/''))
     = d @ replicate n (CHR ''/'') @ ''/'' @ bn l
   \<and> ((d = [] \<or> last d \<noteq> CHR ''/'') \<longrightarrow> getDestination bn l d = d @ ''/'' @ bn l)"
proof -
  have "d @ replicate (Suc n) (CHR ''/'') = (d @ replicate n (CHR ''/'')) @ ''/''"
    by (simp add: replicate_append_same)
  then have "strip_trailing_slash (d @ replicate (Suc n) (CHR ''/'')) = d @ replicate n (CHR ''/'')"
    using strip_trailing_slash_snoc by metis
  then show ?thesis
    by (auto simp: getDestination_def Let_def strip_trailing_slash_def)
qed

theorem getDestination_strips_one_slash_witness:
  "getDestination (\<lambda>p. ''package.wgt'') ''build/package.wgt'' ''/home/developer//''
     = ''/home/developer//package.wgt''
   \<and> getDestination (\<lambda>p. ''package.wgt'') ''build/package.wgt'' ''/home/developer''
     = ''/home/developer/package.wgt''"
  using getDestination_strips_one_slash
    [of "\<lambda>p. ''package.wgt''" "''build/package.wgt''" "''/home/developer''" 1]
  by simp

section \<open>Traces of the Bridge methods\<close>

lemmas promise_defs =
  then_do_def fail_do_def then_else_def finally_do_def resolve_def reject_def
  logging_def entering_def call_out_def emit_def

lemma calls_append: "calls (xs @ ys) = calls xs @ calls ys"
  by (induction xs rule: calls.induct) simp_all

lemma warnings_append: "warnings (xs @ ys) = warnings xs @ warnings ys"
  by (induction xs rule: warnings.induct) simp_all

lemma then_do_then_else: "then_do p f = then_else p f reject"
  by (rule ext) (simp add: then_do_def then_else_def reject_def split: prod.splits sum.splits)

lemma fail_do_then_else: "fail_do p g = then_else p resolve g"
  by (rule ext) (simp add: fail_do_def then_else_def resolve_def split: prod.splits sum.splits)

subsection \<open>Promises that only append to the trace\<close>

lemma growsD: "grows p \<Longrightarrow> p s = (r, s') \<Longrightarrow> \<exists>ext. trace s' = trace s @ ext"
  unfolding grows_def by (metis snd_conv)

lemma grows_resolve: "grows (resolve v)"
  by (simp add: grows_def resolve_def)

lemma grows_reject: "grows (reject e)"
  by (simp add: grows_def reject_def)

lemma grows_call_out: "grows (call_out e f)"
  by (simp add: grows_def call_out_def emit_def split: prod.splits)

lemma grows_logging:
  assumes "grows p"
  shows "grows (logging l a p)"
  unfolding grows_def
proof
  fix s
  obtain r s1 where ps: "p (emit (Log l a) s) = (r, s1)" by (cases "p (emit (Log l a) s)")
  from growsD[OF assms ps] obtain e1 where "trace s1 = trace (emit (Log l a) s) @ e1" by blast
  with ps show "\<exists>ext. trace (snd (logging l a p s)) = trace s @ ext"
    by (simp add: logging_def emit_def)
qed

lemma grows_entering:
  assumes "grows p"
  shows "grows (entering c p)"
  unfolding grows_def
proof
  fix s
  obtain r s1 where ps: "p (emit (Enter c) s) = (r, s1)" by (cases "p (emit (Enter c) s)")
  from growsD[OF assms ps] obtain e1 where "trace s1 = trace (emit (Enter c) s) @ e1" by blast
  with ps show "\<exists>ext. trace (snd (entering c p s)) = trace s @ ext"
    by (simp add: entering_def emit_def)
qed

lemma grows_then_else:
  assumes "grows p" and "\<And>v. grows (f v)" and "\<And>e. grows (g e)"
  shows "grows (then_else p f g)"
  unfolding grows_def
proof
  fix s
  obtain r s1 where ps: "p s = (r, s1)" by (cases "p s")
  from growsD[OF assms(1) ps] obtain e1 where e1: "trace s1 = trace s @ e1" by blast
  show "\<exists>ext. trace (snd (then_else p f g s)) = trace s @ ext"
  proof (cases r)
    case (Inl e)
    obtain r2 s2 where gs: "g e s1 = (r2, s2)" by (cases "g e s1")
    from growsD[OF assms(3) gs] obtain e2 where "trace s2 = trace s1 @ e2" by blast
    with e1 ps Inl gs show ?thesis by (simp add: then_else_def)
  next
    case (Inr v)
    obtain r2 s2 where fs: "f v s1 = (r2, s2)" by (cases "f v s1")
    from growsD[OF assms(2) fs] obtain e2 where "trace s2 = trace s1 @ e2" by blast
    with e1 ps Inr fs show ?thesis by (simp add: then_else_def)
  qed
qed

lemma grows_then_do: "grows p \<Longrightarrow> (\<And>v. grows (f v)) \<Longrightarrow> grows (then_do p f)"
  by (simp add: then_do_then_else grows_then_else grows_reject)

lemma grows_fail_do: "grows p \<Longrightarrow> (\<And>e. grows (g e)) \<Longrightarrow> grows (fail_do p g)"
  by (simp add: fail_do_then_else grows_then_else grows_resolve)

lemma grows_finally_do:
  assumes "grows p" and "grows c"
  shows "grows (finally_do p c)"
  unfolding grows_def
proof
  fix s
  obtain r s1 where ps: "p s = (r, s1)" by (cases "p s")
  from growsD[OF assms(1) ps] obtain e1 where e1: "trace s1 = trace s @ e1" by blast
  obtain r2 s2 where cs: "c s1 = (r2, s2)" by (cases "c s1")
  from growsD[OF assms(2) cs] obtain e2 where "trace s2 = trace s1 @ e2" by blast
  with e1 ps cs show "\<exists>ext. trace (snd (finally_do p c s)) = trace s @ ext"
    by (cases r2) (simp_all add: finally_do_def)
qed

lemma grows_if: "(b \<Longrightarrow> grows p) \<Longrightarrow> (\<not> b \<Longrightarrow> grows q) \<Longrightarrow> grows (if b then p else q)"
  by simp

lemma grows_case_option:
  "(x = None \<Longrightarrow> grows p) \<Longrightarrow> (\<And>v. x = Some v \<Longrightarrow> grows (q v)) \<Longrightarrow> grows (case x of None \<Rightarrow> p | Some v \<Rightarrow> q v)"
  by (cases x) simp_all

lemma fan_out_grows:
  assumes "\<And>x. grows (f x)"
  shows "fan_out f xs s = (rs, s') \<Longrightarrow> \<exists>ext. trace s' = trace s @ ext"
proof (induction xs arbitrary: s rs s')
  case Nil
  then show ?case by simp
next
  case (Cons x xs)
  obtain r s1 where fx: "f x s = (r, s1)" by (cases "f x s")
  obtain rs1 s2 where rest: "fan_out f xs s1 = (rs1, s2)" by (cases "fan_out f xs s1")
  from Cons.prems fx rest have "s' = s2" by simp
  moreover from growsD[OF assms fx] obtain e1 where "trace s1 = trace s @ e1" by blast
  moreover from Cons.IH[OF rest] obtain e2 where "trace s2 = trace s1 @ e2" by blast
  ultimately show ?case by simp
qed

lemma grows_each:
  assumes "\<And>x. grows (f x)" and "\<And>e. grows (cb e)"
  shows "grows (each f xs cb)"
  unfolding grows_def
proof
  fix s
  obtain rs s1 where fo: "fan_out f xs s = (rs, s1)" by (cases "fan_out f xs s")
  from fan_out_grows[OF assms(1) fo] obtain e1 where e1: "trace s1 = trace s @ e1" by blast
  obtain r s2 where c: "cb (first_error rs) s1 = (r, s2)" by (cases "cb (first_error rs) s1")
  from growsD[OF assms(2) c] obtain e2 where "trace s2 = trace s1 @ e2" by blast
  with e1 fo c show "\<exists>ext. trace (snd (each f xs cb s)) = trace s @ ext"
    by (simp add: each_def)
qed

lemmas grows_intros =
  grows_resolve grows_reject grows_call_out grows_logging grows_entering
  grows_then_else grows_then_do grows_fail_do grows_finally_do grows_if
  grows_case_option grows_each

lemma grows_fileExists: "grows (fileExists br p)"
  unfolding fileExists_def Let_def by (intro grows_intros)

lemma grows_chmod: "grows (chmod br p c)"
  unfolding chmod_def Let_def by (intro grows_intros)

lemma grows_root: "grows (root br on)"
  unfolding root_def Let_def by (intro grows_intros)

lemma grows_listRemoteFiles: "grows (listRemoteFiles br spec)"
  unfolding listRemoteFiles_def Let_def by (cases spec) (auto intro!: grows_intros)

lemma grows_pushRaw: "grows (pushRaw br l p)"
  unfolding pushRaw_def by (intro grows_intros)

lemma grows_pushOne: "grows (pushOne br l d ow ch)"
  unfolding pushOne_def Let_def
  by (intro grows_intros grows_fileExists grows_pushRaw grows_chmod)

lemma grows_push: "grows (push br spec d ow ch)"
  unfolding push_def by (intro grows_intros grows_pushOne)

lemma grows_runScript: "grows (runScript br f a)"
  unfolding runScript_def Let_def by (intro grows_intros)

lemma grows_runTizenAppScript: "grows (runTizenAppScript br c a)"
  unfolding runTizenAppScript_def Let_def by (intro grows_intros)

lemma grows_installOne: "grows (installOne br f)"
  unfolding installOne_def by (intro grows_intros grows_runTizenAppScript)

lemma grows_install: "grows (install br spec)"
  unfolding install_def by (intro grows_intros grows_listRemoteFiles grows_installOne)

lemma grows_uninstall: "grows (uninstall br p sof)"
  unfolding uninstall_def Let_def by (intro grows_intros grows_runTizenAppScript)

lemma grows_launch: "grows (launch br sub u sof)"
  unfolding launch_def Let_def by (intro grows_intros grows_runTizenAppScript)

lemma grows_portForward: "grows (portForward br lp rp)"
  unfolding portForward_def Let_def by (intro grows_intros)

lemma grows_runBrowser: "grows (runBrowser br b lp)"
  unfolding runBrowser_def Let_def by (auto intro!: grows_intros split: option.splits)

lemma grows_task_push: "grows (task_push t d)"
  unfolding task_push_def Let_def by (intro grows_intros grows_push)

lemma grows_task_install: "grows (task_install t d)"
  unfolding task_install_def by (intro grows_intros grows_install)

lemma grows_task_uninstall: "grows (task_uninstall t d)"
  unfolding task_uninstall_def Let_def by (intro grows_intros grows_uninstall)

lemma grows_task_script: "grows (task_script t d)"
  unfolding task_script_def Let_def by (intro grows_intros grows_runScript)

lemma grows_task_launch: "grows (task_launch t d sub)"
  unfolding task_launch_def Let_def
  by (intro grows_intros grows_launch grows_portForward grows_runBrowser)

lemma grows_apply_cmd: "grows (apply_cmd t c d act)"
  unfolding apply_cmd_def
  by (cases c)
     (simp_all add: grows_entering grows_task_push grows_task_install grows_task_uninstall
        grows_task_script grows_task_launch)

subsection \<open>Promises that enter no Bridge method\<close>

lemma quietD: "quiet p \<Longrightarrow> p s = (r, s') \<Longrightarrow> calls (trace s') = calls (trace s)"
  unfolding quiet_def by (metis snd_conv)

lemma quiet_resolve: "quiet (resolve v)"
  by (simp add: quiet_def resolve_def)

lemma quiet_reject: "quiet (reject e)"
  by (simp add: quiet_def reject_def)

lemma quiet_call_out: "calls [e] = [] \<Longrightarrow> quiet (call_out e f)"
  by (simp add: quiet_def call_out_def emit_def calls_append split: prod.splits)

lemma quiet_logging:
  assumes "quiet p"
  shows "quiet (logging l a p)"
  unfolding quiet_def
proof
  fix s
  obtain r s1 where ps: "p (emit (Log l a) s) = (r, s1)" by (cases "p (emit (Log l a) s)")
  from quietD[OF assms ps] ps show "calls (trace (snd (logging l a p s))) = calls (trace s)"
    by (simp add: logging_def emit_def calls_append)
qed

lemma quiet_then_else:
  assumes "quiet p" and "\<And>v. quiet (f v)" and "\<And>e. quiet (g e)"
  shows "quiet (then_else p f g)"
  unfolding quiet_def
proof
  fix s
  obtain r s1 where ps: "p s = (r, s1)" by (cases "p s")
  note e1 = quietD[OF assms(1) ps]
  show "calls (trace (snd (then_else p f g s))) = calls (trace s)"
  proof (cases r)
    case (Inl e)
    obtain r2 s2 where gs: "g e s1 = (r2, s2)" by (cases "g e s1")
    from quietD[OF assms(3) gs] e1 ps Inl gs show ?thesis by (simp add: then_else_def)
  next
    case (Inr v)
    obtain r2 s2 where fs: "f v s1 = (r2, s2)" by (cases "f v s1")
    from quietD[OF assms(2) fs] e1 ps Inr fs show ?thesis by (simp add: then_else_def)
  qed
qed

lemma quiet_then_do: "quiet p \<Longrightarrow> (\<And>v. quiet (f v)) \<Longrightarrow> quiet (then_do p f)"
  by (simp add: then_do_then_else quiet_then_else quiet_reject)

lemma quiet_fail_do: "quiet p \<Longrightarrow> (\<And>e. quiet (g e)) \<Longrightarrow> quiet (fail_do p g)"
  by (simp add: fail_do_then_else quiet_then_else quiet_resolve)

lemma quiet_if: "(b \<Longrightarrow> quiet p) \<Longrightarrow> (\<not> b \<Longrightarrow> quiet q) \<Longrightarrow> quiet (if b then p else q)"
  by simp

lemmas quiet_intros =
  quiet_resolve quiet_reject quiet_logging quiet_then_else quiet_then_do quiet_fail_do quiet_if

lemma entering_quiet:
  assumes "quiet p" and "entering c p s = (r, s')"
  shows "calls (trace s') = calls (trace s) @ [c]"
proof -
  from assms(2) have "p (emit (Enter c) s) = (r, s')" by (simp add: entering_def)
  from quietD[OF assms(1) this] show ?thesis by (simp add: emit_def calls_append)
qed




lemma quiet_runTizenAppScript: "quiet (runTizenAppScript br c a)"
  unfolding runTizenAppScript_def Let_def by (intro quiet_intros quiet_call_out) simp

lemma quiet_listRemoteFiles: "quiet (listRemoteFiles br spec)"
  unfolding listRemoteFiles_def Let_def
  by (cases spec) (auto intro!: quiet_intros quiet_call_out)

lemma root_calls:
  "root br on s = (r, s') \<Longrightarrow> calls (trace s') = calls (trace s) @ [C_root on]"
  unfolding root_def Let_def
  by (erule entering_quiet [rotated]) (intro quiet_intros quiet_call_out, simp)


lemma launch_calls:
  "launch br sub u sof s = (r, s') \<Longrightarrow> calls (trace s') = calls (trace s) @ [C_launch sub u sof]"
  unfolding launch_def Let_def
  by (erule entering_quiet [rotated]) (intro quiet_intros quiet_runTizenAppScript)

lemma portForward_calls:
  "portForward br lp rp s = (r, s') \<Longrightarrow> calls (trace s') = calls (trace s) @ [C_portForward lp rp]"
  unfolding portForward_def Let_def
  by (erule entering_quiet [rotated]) (intro quiet_intros quiet_call_out, simp)

lemma runBrowser_calls:
  "runBrowser br b lp s = (r, s') \<Longrightarrow> calls (trace s') = calls (trace s) @ [C_runBrowser b lp]"
  unfolding runBrowser_def Let_def
  by (erule entering_quiet [rotated])
     (auto intro!: quiet_intros quiet_call_out split: option.splits)

subsection \<open>The fan-out\<close>




subsection \<open>The device script\<close>

lemma runTizenAppScript_emit:
  "fst (runTizenAppScript br c a (emit e s)) = fst (runTizenAppScript br c a s)"
  by (simp add: runTizenAppScript_def Let_def promise_defs split: prod.splits)

lemma runTizenAppScript_warnings:
  "runTizenAppScript br c a s = (r, s') \<Longrightarrow> warnings (trace s') = warnings (trace s)"
  by (auto simp: runTizenAppScript_def Let_def promise_defs warnings_append
           split: prod.splits if_splits)

subsection \<open>Tolerated failures\<close>

lemma call_out_result:
  "f (world s) = (r, w1) \<Longrightarrow> call_out e f s = (r, \<lparr>world = w1, trace = trace s @ [e]\<rparr>)"
  by (simp add: call_out_def emit_def)

lemma launch_failing:
  assumes "launch_failure (fst (runTizenAppScript br sub [u] s))"
  shows "fst (launch br sub u True s) =
           Inl (case fst (runTizenAppScript br sub [u] s) of Inl e \<Rightarrow> e | Inr out \<Rightarrow> Error out)"
    and "fst (launch br sub u False s) = Inr None"
    and "warnings (trace (snd (launch br sub u False s))) =
           warnings (trace s)
             @ [LStr (''app with id '' @ u @ '' could not be ''
                        @ (if sub = ''stop'' then ''stopped'' else ''launched'')
                        @ ''; continuing anyway'')]"
proof -
  show "fst (launch br sub u True s) =
           Inl (case fst (runTizenAppScript br sub [u] s) of Inl e \<Rightarrow> e | Inr out \<Rightarrow> Error out)"
  proof -
    obtain r s1 where run: "runTizenAppScript br sub [u] (emit (Enter (C_launch sub u True)) s) = (r, s1)"
      by (cases "runTizenAppScript br sub [u] (emit (Enter (C_launch sub u True)) s)")
    then have r: "fst (runTizenAppScript br sub [u] s) = r"
      using runTizenAppScript_emit [of br sub "[u]" "Enter (C_launch sub u True)" s] by simp
    with assms have "launch_failure r" by simp
    with run r show ?thesis
      by (cases r) (simp_all add: launch_def launch_failure_def Let_def
                      then_else_def entering_def logging_def reject_def resolve_def)
  qed
next
  obtain r s1 where run: "runTizenAppScript br sub [u] (emit (Enter (C_launch sub u False)) s) = (r, s1)"
    by (cases "runTizenAppScript br sub [u] (emit (Enter (C_launch sub u False)) s)")
  then have r: "fst (runTizenAppScript br sub [u] s) = r"
    using runTizenAppScript_emit [of br sub "[u]" "Enter (C_launch sub u False)" s] by simp
  with assms have f: "launch_failure r" by simp
  from runTizenAppScript_warnings[OF run]
  have w: "warnings (trace s1) = warnings (trace s)" by (simp add: emit_def warnings_append)
  from run f show "fst (launch br sub u False s) = Inr None"
    by (cases r) (simp_all add: launch_def launch_failure_def Let_def
                    then_else_def entering_def logging_def reject_def resolve_def)
  from run f w show "warnings (trace (snd (launch br sub u False s))) =
           warnings (trace s)
             @ [LStr (''app with id '' @ u @ '' could not be ''
                        @ (if sub = ''stop'' then ''stopped'' else ''launched'')
                        @ ''; continuing anyway'')]"
    by (cases r) (simp_all add: launch_def launch_failure_def Let_def
                    then_else_def entering_def logging_def reject_def resolve_def
                    emit_def warnings_append)
qed

lemma uninstall_failing:
  assumes "uninstall_failure (fst (runTizenAppScript br ''uninstall'' [pkg] s))"
  shows "fst (uninstall br pkg True s) =
           Inl (case fst (runTizenAppScript br ''uninstall'' [pkg] s) of
                  Inl e \<Rightarrow> e
                | Inr out \<Rightarrow> Error (''package '' @ pkg @ '' could not be uninstalled''))"
    and "fst (uninstall br pkg False s) = Inr ()"
    and "warnings (trace (snd (uninstall br pkg False s))) =
           warnings (trace s) @ [LStr ''could not uninstall package; continuing anyway'']"
proof -
  show "fst (uninstall br pkg True s) =
           Inl (case fst (runTizenAppScript br ''uninstall'' [pkg] s) of
                  Inl e \<Rightarrow> e
                | Inr out \<Rightarrow> Error (''package '' @ pkg @ '' could not be uninstalled''))"
  proof -
    obtain r s1 where run: "runTizenAppScript br ''uninstall'' [pkg] (emit (Enter (C_uninstall pkg True)) s) = (r, s1)"
      by (cases "runTizenAppScript br ''uninstall'' [pkg] (emit (Enter (C_uninstall pkg True)) s)")
    then have r: "fst (runTizenAppScript br ''uninstall'' [pkg] s) = r"
      using runTizenAppScript_emit [of br "''uninstall''" "[pkg]" "Enter (C_uninstall pkg True)" s] by simp
    with assms have "uninstall_failure r" by simp
    with run r show ?thesis
      by (cases r) (simp_all add: uninstall_def uninstall_failure_def Let_def
                      then_do_def fail_do_def entering_def logging_def reject_def resolve_def)
  qed
next
  obtain r s1 where run: "runTizenAppScript br ''uninstall'' [pkg] (emit (Enter (C_uninstall pkg False)) s) = (r, s1)"
    by (cases "runTizenAppScript br ''uninstall'' [pkg] (emit (Enter (C_uninstall pkg False)) s)")
  then have r: "fst (runTizenAppScript br ''uninstall'' [pkg] s) = r"
    using runTizenAppScript_emit [of br "''uninstall''" "[pkg]" "Enter (C_uninstall pkg False)" s] by simp
  with assms have f: "uninstall_failure r" by simp
  from runTizenAppScript_warnings[OF run]
  have w: "warnings (trace s1) = warnings (trace s)" by (simp add: emit_def warnings_append)
  from run f show "fst (uninstall br pkg False s) = Inr ()"
    by (cases r) (simp_all add: uninstall_def uninstall_failure_def Let_def
                    then_do_def fail_do_def entering_def logging_def reject_def resolve_def)
  from run f w show "warnings (trace (snd (uninstall br pkg False s))) =
           warnings (trace s) @ [LStr ''could not uninstall package; continuing anyway'']"
    by (cases r) (simp_all add: uninstall_def uninstall_failure_def Let_def
                    then_do_def fail_do_def entering_def logging_def reject_def resolve_def
                    emit_def warnings_append)
qed

text \<open>
  Claim C5.  Take an \<open>uninstall\<close> or \<open>launch\<close> call whose device script fails: the remote
  call is rejected, or its output matches the failure pattern of the operation.  With
  \<open>stopOnFailure\<close> true the operation is rejected (with the remote error, or with an
  error made from the output).  With \<open>stopOnFailure\<close> false, on the same remote result,
  it is fulfilled, and exactly one warning has been logged.
\<close>

theorem stopOnFailure_semantics:
  "(uninstall_failure (fst (runTizenAppScript br ''uninstall'' [pkg] s)) \<longrightarrow>
      isl (fst (uninstall br pkg True s))
      \<and> fst (uninstall br pkg False s) = Inr ()
      \<and> warnings (trace (snd (uninstall br pkg False s))) =
          warnings (trace s) @ [LStr ''could not uninstall package; continuing anyway''])
   \<and> (launch_failure (fst (runTizenAppScript br sub [u] s)) \<longrightarrow>
      isl (fst (launch br sub u True s))
      \<and> fst (launch br sub u False s) = Inr None
      \<and> warnings (trace (snd (launch br sub u False s))) =
          warnings (trace s)
            @ [LStr (''app with id '' @ u @ '' could not be ''
                       @ (if sub = ''stop'' then ''stopped'' else ''launched'')
                       @ ''; continuing anyway'')])"
  using uninstall_failing [of br pkg s] launch_failing [of br sub u s]
  by simp

lemmas run_defs =
  scripted_tasks_def scripted_bridge_def scripted_host_def SdbWrapper_def shell_def
  sdb_push_def sdb_forward_def sdb_root_def execute_def prints_def dies_def silent_def
  complains_def some_meta_def start_state_def no_data_def dq_def truthy_def truthy_spec_def
  truthy_port_def show_port_def show_num_def promise_defs Let_def

theorem stopOnFailure_semantics_witness:
  "uninstall_failure
     (fst (runTizenAppScript (scripted_bridge failing_device_script)
             ''uninstall'' [''somepkg''] start_state))
   \<and> isl (fst (uninstall (scripted_bridge failing_device_script) ''somepkg'' True start_state))
   \<and> fst (uninstall (scripted_bridge failing_device_script) ''somepkg'' False start_state) = Inr ()
   \<and> launch_failure
     (fst (runTizenAppScript (scripted_bridge failing_device_script)
             ''start'' [''someid''] start_state))
   \<and> isl (fst (launch (scripted_bridge failing_device_script) ''start'' ''someid'' True start_state))
   \<and> fst (launch (scripted_bridge failing_device_script) ''start'' ''someid'' False start_state)
       = Inr None"
proof -
  have u: "uninstall_failure
     (fst (runTizenAppScript (scripted_bridge failing_device_script)
             ''uninstall'' [''somepkg''] start_state))"
    by (simp add: uninstall_failure_def runTizenAppScript_def failing_device_script_def run_defs)
  have l: "launch_failure
     (fst (runTizenAppScript (scripted_bridge failing_device_script)
             ''start'' [''someid''] start_state))"
    by (simp add: launch_failure_def runTizenAppScript_def failing_device_script_def run_defs)
  from u l
    stopOnFailure_semantics [of "scripted_bridge failing_device_script" "''somepkg''"
      start_state "''start''" "''someid''"]
  show ?thesis by simp
qed

subsection \<open>The port token\<close>

lemma starts_with_iff: "starts_with s p \<longleftrightarrow> (\<exists>post. s = p @ post)"
  by (induction s p rule: starts_with.induct) auto

lemma token_here:
  "starts_with s ''PORT '' \<and> takeWhile is_digit (drop 5 s) \<noteq> []
     \<longleftrightarrow> (\<exists>d post. s = ''PORT '' @ d # post \<and> is_digit d)"
proof
  assume h: "starts_with s ''PORT '' \<and> takeWhile is_digit (drop 5 s) \<noteq> []"
  then obtain rest where s: "s = ''PORT '' @ rest" by (auto simp: starts_with_iff)
  with h have "takeWhile is_digit rest \<noteq> []" by simp
  then obtain d post where "rest = d # post" "is_digit d"
    by (cases rest) (auto split: if_splits)
  with s show "\<exists>d post. s = ''PORT '' @ d # post \<and> is_digit d" by blast
next
  assume "\<exists>d post. s = ''PORT '' @ d # post \<and> is_digit d"
  then obtain d post where "s = ''PORT '' @ d # post" "is_digit d" by blast
  then show "starts_with s ''PORT '' \<and> takeWhile is_digit (drop 5 s) \<noteq> []" by simp
qed

lemma match_port_no_token:
  "\<not> (\<exists>pre d post. s = pre @ ''PORT '' @ d # post \<and> is_digit d) \<Longrightarrow> match_port s = None"
proof (induction s)
  case Nil
  then show ?case by simp
next
  case (Cons c cs)
  have here: "\<not> (starts_with (c # cs) ''PORT '' \<and> takeWhile is_digit (drop 5 (c # cs)) \<noteq> [])"
  proof
    assume "starts_with (c # cs) ''PORT '' \<and> takeWhile is_digit (drop 5 (c # cs)) \<noteq> []"
    then obtain d post where "c # cs = [] @ ''PORT '' @ d # post \<and> is_digit d"
      unfolding token_here by auto
    with Cons.prems show False by blast
  qed
  have "\<not> (\<exists>pre d post. cs = pre @ ''PORT '' @ d # post \<and> is_digit d)"
  proof
    assume "\<exists>pre d post. cs = pre @ ''PORT '' @ d # post \<and> is_digit d"
    then obtain pre d post where "cs = pre @ ''PORT '' @ d # post" "is_digit d" by blast
    then have "c # cs = (c # pre) @ ''PORT '' @ d # post \<and> is_digit d" by simp
    with Cons.prems show False by blast
  qed
  from Cons.IH [OF this] here show ?case by simp
qed

lemma takeWhile_run:
  "(\<forall>c \<in> set ds. P c) \<Longrightarrow> post = [] \<or> \<not> P (hd post) \<Longrightarrow> takeWhile P (ds @ post) = ds"
  by (cases post) (simp_all add: takeWhile_append2 takeWhile_tail)

lemma match_port_leftmost:
  assumes "s = pre @ ''PORT '' @ ds @ post" and "ds \<noteq> []" and "\<forall>c \<in> set ds. is_digit c"
    and "post = [] \<or> \<not> is_digit (hd post)"
    and "\<forall>pre' d post'. s = pre' @ ''PORT '' @ d # post' \<and> is_digit d \<longrightarrow> length pre \<le> length pre'"
  shows "match_port s = Some ds"
  using assms
proof (induction pre arbitrary: s)
  case Nil
  from Nil(3,4) have t: "takeWhile is_digit (ds @ post) = ds" by (rule takeWhile_run)
  with Nil(1,2) show ?case by simp
next
  case (Cons c pre)
  let ?rest = "pre @ ''PORT '' @ ds @ post"
  have s: "s = c # ?rest" using Cons.prems(1) by simp
  have here: "\<not> (starts_with s ''PORT '' \<and> takeWhile is_digit (drop 5 s) \<noteq> [])"
  proof
    assume "starts_with s ''PORT '' \<and> takeWhile is_digit (drop 5 s) \<noteq> []"
    then obtain d post' where "s = [] @ ''PORT '' @ d # post' \<and> is_digit d"
      unfolding token_here by auto
    with Cons.prems(5) have "length (c # pre) \<le> length ([]::string)" by blast
    then show False by simp
  qed
  have left: "\<forall>pre' d post'. ?rest = pre' @ ''PORT '' @ d # post' \<and> is_digit d
                \<longrightarrow> length pre \<le> length pre'"
  proof (intro allI impI)
    fix pre' d post'
    assume "?rest = pre' @ ''PORT '' @ d # post' \<and> is_digit d"
    with s have "s = (c # pre') @ ''PORT '' @ d # post' \<and> is_digit d" by simp
    with Cons.prems(5) have "length (c # pre) \<le> length (c # pre')" by blast
    then show "length pre \<le> length pre'" by simp
  qed
  have rest: "match_port ?rest = Some ds"
    by (rule Cons.IH [OF refl Cons.prems(2,3,4) left])
  from here have h': "\<not> (starts_with (c # ?rest) ''PORT ''
                         \<and> takeWhile is_digit (drop 5 (c # ?rest)) \<noteq> [])"
    unfolding s .
  have "match_port (c # ?rest) = match_port ?rest"
    by (subst match_port.simps(2)) (rule if_not_P [OF h'])
  with rest s show ?case by simp
qed

lemma decimal_snoc: "decimal (ds @ [d]) = 10 * decimal ds + (of_char d - 48)"
  by (simp add: decimal_def)

lemma decimal_positional:
  "decimal ds = (\<Sum>i<length ds. ((of_char (ds ! i) :: nat) - 48) * 10 ^ (length ds - Suc i))"
proof (induction ds rule: rev_induct)
  case Nil
  then show ?case by (simp add: decimal_def)
next
  case (snoc d ds)
  have "(\<Sum>i<length ds. ((of_char ((ds @ [d]) ! i) :: nat) - 48) * 10 ^ (length (ds @ [d]) - Suc i))
        = (\<Sum>i<length ds. 10 * (((of_char (ds ! i) :: nat) - 48) * 10 ^ (length ds - Suc i)))"
  proof (rule sum.cong)
    fix i assume "i \<in> {..<length ds}"
    then have i: "i < length ds" by simp
    then have "length (ds @ [d]) - Suc i = Suc (length ds - Suc i)" by simp
    with i show "((of_char ((ds @ [d]) ! i) :: nat) - 48) * 10 ^ (length (ds @ [d]) - Suc i)
                 = 10 * (((of_char (ds ! i) :: nat) - 48) * 10 ^ (length ds - Suc i))"
      by (simp add: nth_append)
  qed simp
  also have "\<dots> = 10 * decimal ds"
    by (simp add: snoc.IH sum_distrib_left)
  finally show ?case
    by (simp add: decimal_snoc)
qed

lemma match_port_token:
  "\<exists>pre d post. s = pre @ ''PORT '' @ d # post \<and> is_digit d \<Longrightarrow> match_port s \<noteq> None"
proof (induction s)
  case Nil
  then show ?case by simp
next
  case (Cons c cs)
  show ?case
  proof (cases "starts_with (c # cs) ''PORT '' \<and> takeWhile is_digit (drop 5 (c # cs)) \<noteq> []")
    case True
    have "match_port (c # cs) = Some (takeWhile is_digit (drop 5 (c # cs)))"
      by (subst match_port.simps(2)) (rule if_P [OF True])
    then show ?thesis by simp
  next
    case False
    from Cons.prems obtain pre d post where t: "c # cs = pre @ ''PORT '' @ d # post" "is_digit d"
      by blast
    have "pre \<noteq> []"
    proof
      assume "pre = []"
      with t have "\<exists>d post. c # cs = ''PORT '' @ d # post \<and> is_digit d" by auto
      with False show False unfolding token_here by blast
    qed
    then obtain pre' where "pre = c # pre'" using t(1) by (cases pre) auto
    with t have "\<exists>pre d post. cs = pre @ ''PORT '' @ d # post \<and> is_digit d" by auto
    from Cons.IH [OF this] have "match_port cs \<noteq> None" .
    moreover have "match_port (c # cs) = match_port cs"
      by (subst match_port.simps(2)) (rule if_not_P [OF False])
    ultimately show ?thesis by simp
  qed
qed

lemma match_port_decomposition:
  "match_port s = Some ds \<Longrightarrow>
     \<exists>pre post. s = pre @ ''PORT '' @ ds @ post \<and> ds \<noteq> [] \<and> (\<forall>c \<in> set ds. is_digit c)
       \<and> (post = [] \<or> \<not> is_digit (hd post))
       \<and> (\<forall>pre' d post'. s = pre' @ ''PORT '' @ d # post' \<and> is_digit d
              \<longrightarrow> length pre \<le> length pre')"
proof (induction s)
  case Nil
  then show ?case by simp
next
  case (Cons c cs)
  show ?case
  proof (cases "starts_with (c # cs) ''PORT '' \<and> takeWhile is_digit (drop 5 (c # cs)) \<noteq> []")
    case True
    then obtain rest where s: "c # cs = ''PORT '' @ rest" by (auto simp: starts_with_iff)
    have "match_port (c # cs) = Some (takeWhile is_digit (drop 5 (c # cs)))"
      by (subst match_port.simps(2)) (rule if_P [OF True])
    with Cons.prems s have ds: "ds = takeWhile is_digit rest" by simp
    with True s have ne: "ds \<noteq> []" by simp
    have split: "rest = ds @ dropWhile is_digit rest" by (simp add: ds)
    have dig: "\<forall>c \<in> set ds. is_digit c" unfolding ds by (auto dest: set_takeWhileD)
    have stop: "dropWhile is_digit rest = [] \<or> \<not> is_digit (hd (dropWhile is_digit rest))"
      by (cases "dropWhile is_digit rest = []") (simp_all add: hd_dropWhile)
    from s split have "c # cs = [] @ ''PORT '' @ ds @ dropWhile is_digit rest" by simp
    with ne dig stop show ?thesis
      by (intro exI [of _ "[]"] exI [of _ "dropWhile is_digit rest"]) simp
  next
    case False
    have "match_port (c # cs) = match_port cs"
      by (subst match_port.simps(2)) (rule if_not_P [OF False])
    with Cons.prems have "match_port cs = Some ds" by simp
    from Cons.IH [OF this] obtain pre post where
      d: "cs = pre @ ''PORT '' @ ds @ post" "ds \<noteq> []" "\<forall>c \<in> set ds. is_digit c"
         "post = [] \<or> \<not> is_digit (hd post)"
      and left: "\<forall>pre' d post'. cs = pre' @ ''PORT '' @ d # post' \<and> is_digit d
                   \<longrightarrow> length pre \<le> length pre'"
      by blast
    have "\<forall>pre' d post'. c # cs = pre' @ ''PORT '' @ d # post' \<and> is_digit d
            \<longrightarrow> length (c # pre) \<le> length pre'"
    proof (intro allI impI)
      fix pre' d post'
      assume t: "c # cs = pre' @ ''PORT '' @ d # post' \<and> is_digit d"
      have "pre' \<noteq> []"
      proof
        assume "pre' = []"
        with t have "\<exists>d post. c # cs = ''PORT '' @ d # post \<and> is_digit d" by auto
        with False show False unfolding token_here by blast
      qed
      then obtain p where p: "pre' = c # p" using t by (cases pre') auto
      with t have "cs = p @ ''PORT '' @ d # post' \<and> is_digit d" by simp
      with left have "length pre \<le> length p" by blast
      with p show "length (c # pre) \<le> length pre'" by simp
    qed
    with d show ?thesis
      by (intro exI [of _ "c # pre"] exI [of _ post]) simp
  qed
qed

text \<open>
  What \<open>match_port\<close> computes, in terms of the output alone: a token is the text
  \<open>PORT\<close>, a space and a decimal digit.  There is a token exactly when there is a
  leftmost one, followed by its longest run of digits.
\<close>

lemma port_token_leftmost_run:
  "(\<exists>pre d post. out = pre @ ''PORT '' @ d # post \<and> d \<in> set ''0123456789'')
   \<longleftrightarrow>
   (\<exists>pre digits post.
       out = pre @ ''PORT '' @ digits @ post \<and> digits \<noteq> []
       \<and> set digits \<subseteq> set ''0123456789''
       \<and> (post = [] \<or> hd post \<notin> set ''0123456789'')
       \<and> (\<forall>pre' d post'. out = pre' @ ''PORT '' @ d # post' \<and> d \<in> set ''0123456789''
              \<longrightarrow> length pre \<le> length pre'))"
proof
  assume "\<exists>pre d post. out = pre @ ''PORT '' @ d # post \<and> d \<in> set ''0123456789''"
  then have "\<exists>pre d post. out = pre @ ''PORT '' @ d # post \<and> is_digit d"
    unfolding is_digit_def .
  from match_port_token [OF this] obtain ds where "match_port out = Some ds" by auto
  from match_port_decomposition [OF this] obtain pre post where
     "out = pre @ ''PORT '' @ ds @ post \<and> ds \<noteq> [] \<and> (\<forall>c \<in> set ds. is_digit c)
       \<and> (post = [] \<or> \<not> is_digit (hd post))
       \<and> (\<forall>pre' d post'. out = pre' @ ''PORT '' @ d # post' \<and> is_digit d
              \<longrightarrow> length pre \<le> length pre')"
    by blast
  then have "out = pre @ ''PORT '' @ ds @ post \<and> ds \<noteq> []
       \<and> set ds \<subseteq> set ''0123456789''
       \<and> (post = [] \<or> hd post \<notin> set ''0123456789'')
       \<and> (\<forall>pre' d post'. out = pre' @ ''PORT '' @ d # post' \<and> d \<in> set ''0123456789''
              \<longrightarrow> length pre \<le> length pre')"
    unfolding is_digit_def by (simp only: subset_iff) blast
  then show "\<exists>pre digits post.
       out = pre @ ''PORT '' @ digits @ post \<and> digits \<noteq> []
       \<and> set digits \<subseteq> set ''0123456789''
       \<and> (post = [] \<or> hd post \<notin> set ''0123456789'')
       \<and> (\<forall>pre' d post'. out = pre' @ ''PORT '' @ d # post' \<and> d \<in> set ''0123456789''
              \<longrightarrow> length pre \<le> length pre')"
    by blast
next
  assume "\<exists>pre digits post.
       out = pre @ ''PORT '' @ digits @ post \<and> digits \<noteq> []
       \<and> set digits \<subseteq> set ''0123456789''
       \<and> (post = [] \<or> hd post \<notin> set ''0123456789'')
       \<and> (\<forall>pre' d post'. out = pre' @ ''PORT '' @ d # post' \<and> d \<in> set ''0123456789''
              \<longrightarrow> length pre \<le> length pre')"
  then obtain pre digits post where
    d: "out = pre @ ''PORT '' @ digits @ post" "digits \<noteq> []" "set digits \<subseteq> set ''0123456789''"
    by blast
  then obtain d ds where "digits = d # ds" by (cases digits) auto
  with d have "out = pre @ ''PORT '' @ d # (ds @ post) \<and> d \<in> set ''0123456789''" by auto
  then show "\<exists>pre d post. out = pre @ ''PORT '' @ d # post \<and> d \<in> set ''0123456789''"
    by blast
qed

subsection \<open>The debug chain\<close>

lemma task_launch_after_launch:
  assumes "tizenConfig_getMeta t (world s) = (Inr meta, w1)"
    and "launch (bridge t) sub (app_id meta) (stopOnFailure data = Some True)
           \<lparr>world = w1, trace = trace s @ [Get_meta]\<rparr> = (Inr result, s2)"
  shows "task_launch t data sub s =
     (if sub = ''debug''
      then (case result of
              None \<Rightarrow> reject (TypeError (undefined_match_message t))
            | Some out \<Rightarrow>
                (case match_port out of
                   None \<Rightarrow> reject (Error ''no remote port available for debugging'')
                 | Some digits \<Rightarrow>
                     then_do (portForward (bridge t)
                                (if truthy_port (localPort data) then the (localPort data)
                                 else PortStr ''8888'')
                                (parseInt (parse_big t) digits))
                       (\<lambda>_. case (if truthy (browserCmd data) then browserCmd data else None) of
                               Some b \<Rightarrow>
                                 then_do (runBrowser (bridge t) b
                                            (if truthy_port (localPort data) then the (localPort data)
                                             else PortStr ''8888''))
                                   (\<lambda>out. resolve (Str out))
                             | None \<Rightarrow> resolve Undefined)))
      else resolve Undefined) s2"
proof -
  have sof: "(if stopOnFailure data = Some True then True else False)
               = (stopOnFailure data = Some True)"
    by simp
  have meta: "call_out Get_meta (tizenConfig_getMeta t) s
                = (Inr meta, \<lparr>world = w1, trace = trace s @ [Get_meta]\<rparr>)"
    using assms(1) by (rule call_out_result)
  show ?thesis
    unfolding task_launch_def Let_def sof
    by (simp only: then_do_def meta assms(2) prod.case sum.case)
qed

lemma debug_chain_matched:
  assumes "tizenConfig_getMeta t (world s) = (Inr meta, w1)"
    and "launch (bridge t) ''debug'' (app_id meta) (stopOnFailure data = Some True)
           \<lparr>world = w1, trace = trace s @ [Get_meta]\<rparr> = (Inr (Some out), s2)"
  shows "(match_port out = None \<longrightarrow>
            task_launch t data ''debug'' s
              = (Inl (Error ''no remote port available for debugging''), s2))
       \<and> (\<forall>digits. match_port out = Some digits \<longrightarrow>
            (let lp = (if truthy_port (localPort data) then the (localPort data)
                       else PortStr ''8888'');
                 forwarded = fst (portForward (bridge t) lp (parseInt (parse_big t) digits) s2)
             in calls (trace (snd (task_launch t data ''debug'' s)))
                  = calls (trace s2) @ C_portForward lp (parseInt (parse_big t) digits)
                      # (if isl forwarded \<or> \<not> truthy (browserCmd data) then []
                         else [C_runBrowser (the (browserCmd data)) lp])
                \<and> (isl forwarded \<longrightarrow> fst (task_launch t data ''debug'' s) = Inl (projl forwarded))))"
proof (intro conjI allI impI)
  assume "match_port out = None"
  then show "task_launch t data ''debug'' s
              = (Inl (Error ''no remote port available for debugging''), s2)"
    using task_launch_after_launch [OF assms] by (simp add: reject_def)
next
  fix digits
  assume m: "match_port out = Some digits"
  define lp where "lp = (if truthy_port (localPort data) then the (localPort data)
                       else PortStr ''8888'')"
  obtain r3 s3 where pf: "portForward (bridge t) lp (parseInt (parse_big t) digits) s2 = (r3, s3)"
    by (cases "portForward (bridge t) lp (parseInt (parse_big t) digits) s2")
  note c3 = portForward_calls [OF pf]
  have "calls (trace (snd (task_launch t data ''debug'' s)))
                  = calls (trace s2) @ C_portForward lp (parseInt (parse_big t) digits)
                      # (if isl r3 \<or> \<not> truthy (browserCmd data) then []
                         else [C_runBrowser (the (browserCmd data)) lp])
                \<and> (isl r3 \<longrightarrow> fst (task_launch t data ''debug'' s) = Inl (projl r3))"
  proof (cases r3)
    case (Inl e)
    with pf m c3 show ?thesis
      using task_launch_after_launch [OF assms] by (simp add: then_do_def lp_def)
  next
    case (Inr v)
    show ?thesis
    proof (cases "truthy (browserCmd data)")
      case False
      with Inr pf m c3 show ?thesis
        using task_launch_after_launch [OF assms] by (simp add: then_do_def lp_def resolve_def)
    next
      case True
      then obtain b where b: "browserCmd data = Some b" by (auto simp: truthy_def split: option.splits)
      obtain r4 s4 where rb: "runBrowser (bridge t) b lp s3 = (r4, s4)"
        by (cases "runBrowser (bridge t) b lp s3")
      note c4 = runBrowser_calls [OF rb]
      from True b Inr pf m c3 c4 rb show ?thesis
        using task_launch_after_launch [OF assms]
        by (cases r4) (simp_all add: then_do_def lp_def resolve_def)
    qed
  qed
  with pf show "let lp = (if truthy_port (localPort data) then the (localPort data)
                       else PortStr ''8888'');
                 forwarded = fst (portForward (bridge t) lp (parseInt (parse_big t) digits) s2)
             in calls (trace (snd (task_launch t data ''debug'' s)))
                  = calls (trace s2) @ C_portForward lp (parseInt (parse_big t) digits)
                      # (if isl forwarded \<or> \<not> truthy (browserCmd data) then []
                         else [C_runBrowser (the (browserCmd data)) lp])
                \<and> (isl forwarded \<longrightarrow> fst (task_launch t data ''debug'' s) = Inl (projl forwarded))"
    by (simp add: Let_def lp_def)
qed

text \<open>
  Claim C4.  A \<open>debug\<close> action whose launch succeeded with output \<open>out\<close>.  A token is
  the text \<open>PORT\<close>, a space and a decimal digit.  If \<open>out\<close> has no token, the task is
  rejected with "no remote port available for debugging" in the very state the launch
  left, so \<open>portForward\<close> is not attempted.  Otherwise take the leftmost token and the
  longest run of digits after its space: the remote port is the number these digits
  denote (below \<open>2^53\<close>; from there on it is the number the runtime's \<open>parseInt\<close>
  gives).  \<open>portForward\<close> is called next with the local port of the request, or the
  string 8888 when the request has none, and with the remote port; \<open>runBrowser\<close> is
  called after it exactly when the forwarding succeeded and the request has a browser
  command; a failed forwarding is the result of the task.
\<close>

theorem debug_chain:
  assumes "tizenConfig_getMeta t (world s) = (Inr meta, w1)"
    and "launch (bridge t) ''debug'' (app_id meta) (stopOnFailure data = Some True)
           \<lparr>world = w1, trace = trace s @ [Get_meta]\<rparr> = (Inr (Some out), s2)"
  shows "(\<not> (\<exists>pre d post. out = pre @ ''PORT '' @ d # post \<and> d \<in> set ''0123456789'') \<longrightarrow>
            task_launch t data ''debug'' s
              = (Inl (Error ''no remote port available for debugging''), s2))
       \<and> (\<forall>pre digits post.
            out = pre @ ''PORT '' @ digits @ post \<and> digits \<noteq> []
            \<and> set digits \<subseteq> set ''0123456789''
            \<and> (post = [] \<or> hd post \<notin> set ''0123456789'')
            \<and> (\<forall>pre' d post'. out = pre' @ ''PORT '' @ d # post' \<and> d \<in> set ''0123456789''
                   \<longrightarrow> length pre \<le> length pre') \<longrightarrow>
            (let v = (\<Sum>i<length digits.
                        ((of_char (digits ! i) :: nat) - 48) * 10 ^ (length digits - Suc i));
                 rp = (if v < 2 ^ 53 then Fin v else parse_big t digits);
                 lp = (if truthy_port (localPort data) then the (localPort data)
                       else PortStr ''8888'');
                 forwarded = fst (portForward (bridge t) lp rp s2)
             in calls (trace (snd (task_launch t data ''debug'' s)))
                  = calls (trace s2) @ C_portForward lp rp
                      # (if isl forwarded \<or> \<not> truthy (browserCmd data) then []
                         else [C_runBrowser (the (browserCmd data)) lp])
                \<and> (isl forwarded \<longrightarrow> fst (task_launch t data ''debug'' s) = Inl (projl forwarded))))"
proof (intro conjI allI impI)
  assume "\<not> (\<exists>pre d post. out = pre @ ''PORT '' @ d # post \<and> d \<in> set ''0123456789'')"
  then have "\<not> (\<exists>pre d post. out = pre @ ''PORT '' @ d # post \<and> is_digit d)"
    unfolding is_digit_def .
  then have "match_port out = None" by (rule match_port_no_token)
  with debug_chain_matched [OF assms]
  show "task_launch t data ''debug'' s
              = (Inl (Error ''no remote port available for debugging''), s2)"
    by blast
next
  fix pre digits post
  assume h: "out = pre @ ''PORT '' @ digits @ post \<and> digits \<noteq> []
            \<and> set digits \<subseteq> set ''0123456789''
            \<and> (post = [] \<or> hd post \<notin> set ''0123456789'')
            \<and> (\<forall>pre' d post'. out = pre' @ ''PORT '' @ d # post' \<and> d \<in> set ''0123456789''
                   \<longrightarrow> length pre \<le> length pre')"
  have m: "match_port out = Some digits"
  proof (rule match_port_leftmost)
    from h show "out = pre @ ''PORT '' @ digits @ post" by blast
    from h show "digits \<noteq> []" by blast
    from h show "\<forall>c \<in> set digits. is_digit c" unfolding is_digit_def by blast
    from h show "post = [] \<or> \<not> is_digit (hd post)" unfolding is_digit_def by blast
    from h show "\<forall>pre' d post'. out = pre' @ ''PORT '' @ d # post' \<and> is_digit d
                   \<longrightarrow> length pre \<le> length pre'"
      unfolding is_digit_def by blast
  qed
  have p: "parseInt (parse_big t) digits
             = (if decimal digits < 2 ^ 53 then Fin (decimal digits) else parse_big t digits)"
    by (simp add: parseInt_def)
  from debug_chain_matched [OF assms] m
  have "let lp = (if truthy_port (localPort data) then the (localPort data)
                       else PortStr ''8888'');
                 forwarded = fst (portForward (bridge t) lp (parseInt (parse_big t) digits) s2)
             in calls (trace (snd (task_launch t data ''debug'' s)))
                  = calls (trace s2) @ C_portForward lp (parseInt (parse_big t) digits)
                      # (if isl forwarded \<or> \<not> truthy (browserCmd data) then []
                         else [C_runBrowser (the (browserCmd data)) lp])
                \<and> (isl forwarded \<longrightarrow> fst (task_launch t data ''debug'' s) = Inl (projl forwarded))"
    by blast
  then show "let v = (\<Sum>i<length digits.
                        ((of_char (digits ! i) :: nat) - 48) * 10 ^ (length digits - Suc i));
                 rp = (if v < 2 ^ 53 then Fin v else parse_big t digits);
                 lp = (if truthy_port (localPort data) then the (localPort data)
                       else PortStr ''8888'');
                 forwarded = fst (portForward (bridge t) lp rp s2)
             in calls (trace (snd (task_launch t data ''debug'' s)))
                  = calls (trace s2) @ C_portForward lp rp
                      # (if isl forwarded \<or> \<not> truthy (browserCmd data) then []
                         else [C_runBrowser (the (browserCmd data)) lp])
                \<and> (isl forwarded \<longrightarrow> fst (task_launch t data ''debug'' s) = Inl (projl forwarded))"
    unfolding p decimal_positional [of digits, symmetric] Let_def .
qed

theorem debug_chain_witness:
  "tizenConfig_getMeta (scripted_tasks debug_ready) (world start_state) = (Inr some_meta, ())
   \<and> fst (launch (bridge (scripted_tasks debug_ready)) ''debug'' (app_id some_meta) False
            \<lparr>world = (), trace = trace start_state @ [Get_meta]\<rparr>) = Inr (Some ''PORT 1234'')
   \<and> ''PORT 1234'' = [] @ ''PORT '' @ ''1234'' @ []
   \<and> calls (trace (snd (task_launch (scripted_tasks debug_ready)
                          (no_data\<lparr>action := Some ''debug''\<rparr>) ''debug'' start_state)))
       = [C_launch ''debug'' ''someid'' False, C_portForward (PortStr ''8888'') (Fin 1234)]
   \<and> match_port ''-------GARBAGE-------'' = None
   \<and> match_port ''xPORT PORT 12a PORT 34'' = Some ''12''"
proof -
  let ?T = "scripted_tasks debug_ready"
  let ?D = "no_data\<lparr>action := Some ''debug''\<rparr>"
  let ?s1 = "\<lparr>world = (), trace = trace start_state @ [Get_meta]\<rparr>"
  obtain s2 where s2: "s2 = snd (launch (bridge ?T) ''debug'' (app_id some_meta) False ?s1)"
    by simp
  have meta: "tizenConfig_getMeta ?T (world start_state) = (Inr some_meta, ())"
    by (simp add: scripted_tasks_def)
  have l: "fst (launch (bridge ?T) ''debug'' (app_id some_meta) False ?s1) = Inr (Some ''PORT 1234'')"
    by (simp add: launch_def runTizenAppScript_def debug_ready_def run_defs)
  then have l2: "launch (bridge ?T) ''debug'' (app_id some_meta) (stopOnFailure ?D = Some True) ?s1
                   = (Inr (Some ''PORT 1234''), s2)"
    by (simp add: s2 no_data_def prod_eq_iff)
  have c2: "calls (trace s2) = [C_launch ''debug'' ''someid'' False]"
    using launch_calls [of "bridge ?T" "''debug''" "app_id some_meta" False ?s1 "Inr (Some ''PORT 1234'')" s2] l
    by (simp add: s2 prod_eq_iff start_state_def some_meta_def)
  have tok: "''PORT 1234'' = [] @ ''PORT '' @ ''1234'' @ [] \<and> ''1234'' \<noteq> []
            \<and> set ''1234'' \<subseteq> set ''0123456789''
            \<and> (([]::string) = [] \<or> hd ([]::string) \<notin> set ''0123456789'')
            \<and> (\<forall>pre' d post'. ''PORT 1234'' = pre' @ ''PORT '' @ d # post' \<and> d \<in> set ''0123456789''
                   \<longrightarrow> length ([]::string) \<le> length pre')"
    by simp
  have v: "(\<Sum>i<length ''1234''. ((of_char (''1234'' ! i) :: nat) - 48) * 10 ^ (length ''1234'' - Suc i))
            = 1234"
    by (simp add: lessThan_Suc numeral_eq_Suc)
  have f: "\<not> isl (fst (portForward (bridge ?T) (PortStr ''8888'') (Fin 1234) s2))"
    by (simp add: portForward_def debug_ready_def run_defs)
  from debug_chain [OF meta l2] tok
  have "let v = (\<Sum>i<length ''1234''.
                        ((of_char (''1234'' ! i) :: nat) - 48) * 10 ^ (length ''1234'' - Suc i));
            rp = (if v < 2 ^ 53 then Fin v else parse_big ?T ''1234'');
            lp = (if truthy_port (localPort ?D) then the (localPort ?D) else PortStr ''8888'');
            forwarded = fst (portForward (bridge ?T) lp rp s2)
        in calls (trace (snd (task_launch ?T ?D ''debug'' start_state)))
             = calls (trace s2) @ C_portForward lp rp
                 # (if isl forwarded \<or> \<not> truthy (browserCmd ?D) then []
                    else [C_runBrowser (the (browserCmd ?D)) lp])
           \<and> (isl forwarded \<longrightarrow> fst (task_launch ?T ?D ''debug'' start_state) = Inl (projl forwarded))"
    by blast
  with f c2 have
    "calls (trace (snd (task_launch ?T ?D ''debug'' start_state)))
       = [C_launch ''debug'' ''someid'' False, C_portForward (PortStr ''8888'') (Fin 1234)]"
    unfolding v by (simp add: Let_def no_data_def truthy_port_def truthy_def)
  moreover have "match_port ''-------GARBAGE-------'' = None"
    by (simp add: is_digit_def)
  moreover have "match_port ''xPORT PORT 12a PORT 34'' = Some ''12''"
    by (simp add: is_digit_def)
  ultimately show ?thesis using meta l by simp
qed

text \<open>
  Claim C10.  A \<open>launch\<close> with \<open>stopOnFailure\<close> false whose device script fails is
  fulfilled with \<open>undefined\<close>, not with the output.  For a \<open>debug\<close> action in that
  situation, the task then calls \<open>match\<close> on \<open>undefined\<close>: it is rejected with a
  \<open>TypeError\<close>, and after the entry into \<open>launch\<close> no Bridge method is entered, so
  \<open>portForward\<close> is not reached.
\<close>

theorem tolerated_launch_failure_breaks_debug_chain:
  "(launch_failure (fst (runTizenAppScript br sub [u] s)) \<longrightarrow>
      fst (launch br sub u False s) = Inr None)
   \<and> (stopOnFailure data \<noteq> Some True
        \<and> tizenConfig_getMeta t (world s) = (Inr meta, w1)
        \<and> launch_failure (fst (runTizenAppScript (bridge t) ''debug'' [app_id meta]
                                  \<lparr>world = w1, trace = trace s @ [Get_meta]\<rparr>)) \<longrightarrow>
      fst (task_launch t data ''debug'' s) = Inl (TypeError (undefined_match_message t))
      \<and> calls (trace (snd (task_launch t data ''debug'' s)))
          = calls (trace s) @ [C_launch ''debug'' (app_id meta) False])"
proof (intro conjI impI)
  assume "launch_failure (fst (runTizenAppScript br sub [u] s))"
  then show "fst (launch br sub u False s) = Inr None"
    by (rule launch_failing(2))
next
  assume h: "stopOnFailure data \<noteq> Some True
        \<and> tizenConfig_getMeta t (world s) = (Inr meta, w1)
        \<and> launch_failure (fst (runTizenAppScript (bridge t) ''debug'' [app_id meta]
                                  \<lparr>world = w1, trace = trace s @ [Get_meta]\<rparr>))"
  let ?s1 = "\<lparr>world = w1, trace = trace s @ [Get_meta]\<rparr>"
  from h have sof: "(stopOnFailure data = Some True) = False" by simp
  from h have meta: "tizenConfig_getMeta t (world s) = (Inr meta, w1)" by simp
  from h have "fst (launch (bridge t) ''debug'' (app_id meta) False ?s1) = Inr None"
    using launch_failing(2) by blast
  then obtain s2 where l: "launch (bridge t) ''debug'' (app_id meta) False ?s1 = (Inr None, s2)"
    by (cases "launch (bridge t) ''debug'' (app_id meta) False ?s1") simp
  from launch_calls [OF l]
  have c: "calls (trace s2) = calls (trace s) @ [C_launch ''debug'' (app_id meta) False]"
    by (simp add: calls_append)
  from l sof have l': "launch (bridge t) ''debug'' (app_id meta) (stopOnFailure data = Some True) ?s1
                        = (Inr None, s2)"
    by simp
  from task_launch_after_launch [OF meta l']
  have r: "task_launch t data ''debug'' s = (Inl (TypeError (undefined_match_message t)), s2)"
    by (simp add: reject_def)
  from r show "fst (task_launch t data ''debug'' s) = Inl (TypeError (undefined_match_message t))"
    by simp
  from r c show "calls (trace (snd (task_launch t data ''debug'' s)))
          = calls (trace s) @ [C_launch ''debug'' (app_id meta) False]"
    by simp
qed

theorem tolerated_launch_failure_breaks_debug_chain_witness:
  "launch_failure (fst (runTizenAppScript (scripted_bridge failing_device_script)
                          ''debug'' [''someid''] start_state))
   \<and> fst (launch (scripted_bridge failing_device_script) ''debug'' ''someid'' False start_state)
       = Inr None
   \<and> stopOnFailure (no_data\<lparr>action := Some ''debug''\<rparr>) \<noteq> Some True
   \<and> fst (task_launch (scripted_tasks failing_device_script)
             (no_data\<lparr>action := Some ''debug''\<rparr>) ''debug'' start_state)
       = Inl (TypeError ''Cannot read property 'match' of undefined'')
   \<and> calls (trace (snd (task_launch (scripted_tasks failing_device_script)
                          (no_data\<lparr>action := Some ''debug''\<rparr>) ''debug'' start_state)))
       = [C_launch ''debug'' ''someid'' False]"
proof -
  let ?T = "scripted_tasks failing_device_script"
  let ?D = "no_data\<lparr>action := Some ''debug''\<rparr>"
  have f0: "launch_failure (fst (runTizenAppScript (scripted_bridge failing_device_script)
                          ''debug'' [''someid''] start_state))"
    by (simp add: launch_failure_def runTizenAppScript_def failing_device_script_def run_defs)
  have sof: "stopOnFailure ?D \<noteq> Some True"
    by (simp add: no_data_def)
  have meta: "tizenConfig_getMeta ?T (world start_state) = (Inr some_meta, ())"
    by (simp add: scripted_tasks_def)
  have f1: "launch_failure (fst (runTizenAppScript (bridge ?T) ''debug'' [app_id some_meta]
                                  \<lparr>world = (), trace = trace start_state @ [Get_meta]\<rparr>))"
    by (simp add: launch_failure_def runTizenAppScript_def failing_device_script_def run_defs)
  from f0 sof meta f1
    tolerated_launch_failure_breaks_debug_chain
      [of "scripted_bridge failing_device_script" "''debug''" "''someid''" start_state
          ?D ?T some_meta "()"]
  show ?thesis
    by (simp add: scripted_tasks_def some_meta_def start_state_def)
qed

subsection \<open>Pushing a list of files\<close>



subsection \<open>The root bracket\<close>

lemma root_bracket_outcome:
  assumes "root br True s = (r1, s1)"
  shows "finally_do (then_do (root br True) (\<lambda>_. p)) (root br False) s =
     (case r1 of
        Inl e \<Rightarrow>
          (case root br False s1 of
             (Inl e3, s3) \<Rightarrow> (Inl e3, s3)
           | (Inr _, s3) \<Rightarrow> (Inl e, s3))
      | Inr _ \<Rightarrow>
          (case p s1 of (r2, s2) \<Rightarrow>
             (case root br False s2 of
                (Inl e3, s3) \<Rightarrow> (Inl e3, s3)
              | (Inr _, s3) \<Rightarrow> (r2, s3))))"
  using assms
  by (cases r1) (simp_all add: finally_do_def then_do_def split: prod.splits sum.splits)

lemma root_bracket_calls:
  assumes "grows p"
  shows "\<exists>mid. calls (trace (snd (finally_do (then_do (root br True) (\<lambda>_. entering c p))
                                     (root br False) s)))
                  = calls (trace s) @ C_root True # mid @ [C_root False]
               \<and> (case fst (root br True s) of
                     Inl e \<Rightarrow> mid = []
                   | Inr _ \<Rightarrow> (\<exists>rest. mid = c # rest))"
proof -
  obtain r1 s1 where r1: "root br True s = (r1, s1)" by (cases "root br True s")
  note c1 = root_calls [OF r1]
  note out = root_bracket_outcome [OF r1, of "entering c p"]
  show ?thesis
  proof (cases r1)
    case (Inl e)
    obtain r3 s3 where r3: "root br False s1 = (r3, s3)" by (cases "root br False s1")
    from root_calls [OF r3] c1 Inl r3 r1 out show ?thesis
      by (cases r3) simp_all
  next
    case (Inr v)
    obtain r2 s2 where r2: "entering c p s1 = (r2, s2)" by (cases "entering c p s1")
    then have "p (emit (Enter c) s1) = (r2, s2)" by (simp add: entering_def)
    from growsD [OF assms this] obtain ext where "trace s2 = trace s1 @ Enter c # ext"
      by (auto simp: emit_def)
    then have c2: "calls (trace s2) = calls (trace s1) @ c # calls ext"
      by (simp add: calls_append)
    obtain r3 s3 where r3: "root br False s2 = (r3, s3)" by (cases "root br False s2")
    from root_calls [OF r3] c1 c2 Inr r2 r3 r1 out show ?thesis
      by (cases r3) simp_all
  qed
qed

lemma grows_cmd_body:
  "grows (case c of
            Push \<Rightarrow> task_push t data
          | Install \<Rightarrow> task_install t data
          | Uninstall \<Rightarrow> task_uninstall t data
          | Script \<Rightarrow> task_script t data
          | Launch \<Rightarrow> task_launch t data act)"
  by (cases c)
     (simp_all add: grows_task_push grows_task_install grows_task_uninstall
        grows_task_script grows_task_launch)

lemma tizenTask_install:
  assumes "action data = Some ''install''"
  shows "tizenTask t data =
           finally_do (then_do (root (bridge t) True) (\<lambda>_. apply_cmd t Install data ''install''))
             (root (bridge t) False)"
  using assms by (simp add: tizenTask_def select_cmd_def truthy_def Let_def)

lemma tizenTask_as_root:
  assumes "truthy (action data)" and "asRoot data = Some True"
    and "select_cmd (the (action data)) True = (Some c, b)"
  shows "tizenTask t data =
           finally_do
             (then_do (root (bridge t) True) (\<lambda>_. apply_cmd t c data (the (action data))))
             (root (bridge t) False)"
proof -
  from assms(3) have "b = True"
    by (auto simp: select_cmd_def split: if_splits)
  with assms show ?thesis
    by (simp add: tizenTask_def Let_def)
qed

text \<open>
  Claim C8.  For a request whose action is \<open>install\<close>, whatever its \<open>asRoot\<close> property:
  the first Bridge method entered is \<open>root(true)\<close> and the last one is \<open>root(false)\<close>;
  when \<open>root(true)\<close> succeeded, the install command is entered right after it.  The run
  does not depend on \<open>asRoot\<close>.
\<close>

theorem install_forces_root_bracket:
  assumes "action data = Some ''install''"
  shows "tizenTask t (data\<lparr>asRoot := a\<rparr>) s = tizenTask t data s
       \<and> (\<exists>mid. calls (trace (snd (tizenTask t data s)))
                  = calls (trace s) @ C_root True # mid @ [C_root False]
               \<and> (case fst (root (bridge t) True s) of
                     Inl e \<Rightarrow> mid = []
                   | Inr _ \<Rightarrow> (\<exists>rest. mid = C_cmd Install # rest)))"
proof
  have same: "apply_cmd t Install (data\<lparr>asRoot := a\<rparr>) ''install'' = apply_cmd t Install data ''install''"
    by (simp add: apply_cmd_def task_install_def)
  from assms have "action (data\<lparr>asRoot := a\<rparr>) = Some ''install''" by simp
  then have "tizenTask t (data\<lparr>asRoot := a\<rparr>) =
           finally_do (then_do (root (bridge t) True) (\<lambda>_. apply_cmd t Install data ''install''))
             (root (bridge t) False)"
    unfolding same [symmetric] by (rule tizenTask_install)
  then show "tizenTask t (data\<lparr>asRoot := a\<rparr>) s = tizenTask t data s"
    unfolding tizenTask_install [OF assms] by simp
next
  show "\<exists>mid. calls (trace (snd (tizenTask t data s)))
                  = calls (trace s) @ C_root True # mid @ [C_root False]
               \<and> (case fst (root (bridge t) True s) of
                     Inl e \<Rightarrow> mid = []
                   | Inr _ \<Rightarrow> (\<exists>rest. mid = C_cmd Install # rest))"
    unfolding tizenTask_install [OF assms] apply_cmd_def
    by (rule root_bracket_calls) (rule grows_cmd_body)
qed

theorem install_forces_root_bracket_witness:
  "action (no_data\<lparr>action := Some ''install'', asRoot := Some False,
                   remoteFiles := Some (Single ''/tmp/package.wgt'')\<rparr>) = Some ''install''
   \<and> calls (trace (snd (tizenTask (scripted_tasks [])
        (no_data\<lparr>action := Some ''install'', asRoot := Some False,
                  remoteFiles := Some (Single ''/tmp/package.wgt'')\<rparr>) start_state)))
      = [C_root True, C_cmd Install, C_install (Single ''/tmp/package.wgt''),
         C_installOne ''/tmp/package.wgt'', C_root False]"
proof -
  let ?D = "no_data\<lparr>action := Some ''install'', asRoot := Some False,
                   remoteFiles := Some (Single ''/tmp/package.wgt'')\<rparr>"
  have a: "action ?D = Some ''install''" by simp
  have c: "calls (trace (snd (tizenTask (scripted_tasks []) ?D start_state)))
      = [C_root True, C_cmd Install, C_install (Single ''/tmp/package.wgt''),
         C_installOne ''/tmp/package.wgt'', C_root False]"
    by (simp add: tizenTask_def select_cmd_def apply_cmd_def task_install_def install_def
          listRemoteFiles_def each_def installOne_def runTizenAppScript_def root_def run_defs)
  from install_forces_root_bracket [OF a, of "scripted_tasks []" "Some False" start_state] a c
  show ?thesis by simp
qed

text \<open>
  Claim C1, run on a device that refuses \<open>sdb root on\<close>.  The request asks for an
  install as root.  \<open>root(true)\<close> is rejected and the install command is not entered,
  but \<open>root(false)\<close> is entered all the same and \<open>sdb root off\<close> is sent to the device:
  \<open>finally\<close> runs its callback after a rejection too.
\<close>

theorem root_off_called_after_failed_root_on:
  "fst (tizenTask (scripted_tasks refusing_root)
          (no_data\<lparr>action := Some ''install'', asRoot := Some True,
                    remoteFiles := Some (Single ''/tmp/package.wgt'')\<rparr>) start_state)
     = Inl (Error ''Command failed: sdb root on'')
   \<and> calls (trace (snd (tizenTask (scripted_tasks refusing_root)
          (no_data\<lparr>action := Some ''install'', asRoot := Some True,
                    remoteFiles := Some (Single ''/tmp/package.wgt'')\<rparr>) start_state)))
     = [C_root True, C_root False]
   \<and> Sdb_root False \<in> set (trace (snd (tizenTask (scripted_tasks refusing_root)
          (no_data\<lparr>action := Some ''install'', asRoot := Some True,
                    remoteFiles := Some (Single ''/tmp/package.wgt'')\<rparr>) start_state)))"
  by (simp add: tizenTask_def select_cmd_def root_def refusing_root_def run_defs)

subsection \<open>Remote files\<close>

lemma fileExists_outcomes:
  assumes "shellF (sdbWrapper br) (''stat '' @ p) (world s) = (r, w1)"
  shows "fst (fileExists br p s) =
           (case r of
              Inr _ \<Rightarrow> Inr True
            | Inl e \<Rightarrow> if message e = ''No such file or directory'' then Inr False else Inl e)"
  using assms
    call_out_result [where f = "shellF (sdbWrapper br) (''stat '' @ p)" and s = s
      and e = "Sdb_shell (''stat '' @ p)"]
  by (cases r)
     (simp_all add: fileExists_def Let_def fail_do_def then_do_def resolve_def reject_def
        logging_def)

text \<open>
  Claim C2, run on the real \<open>SdbWrapper\<close>.  The device answers \<open>stat\<close> for a missing file
  with a line that ends in "No such file or directory".  \<open>execute\<close> rejects with the
  whole output as message, because the output matches that pattern; \<open>fileExists\<close>
  compares the message with \<open>===\<close>, finds it different, and rejects instead of
  resolving false.
\<close>

theorem fileExists_rejects_stat_of_missing_file:
  "contains ''stat: cannot stat '/tmp/foo.txt': No such file or directory''
       ''No such file or directory''
   \<and> fst (fileExists (scripted_bridge missing_file) ''/tmp/foo.txt'' start_state)
       = Inl (Error ''stat: cannot stat '/tmp/foo.txt': No such file or directory'')"
  by (simp add: fileExists_def missing_file_def run_defs)

lemma split_nl_not_empty: "split_nl s \<noteq> []"
  by (induction s) (auto split: list.splits)

lemma listRemoteFiles_verbatim:
  "listRemoteFiles br (Single f) s = (Inr [f], s)"
  "listRemoteFiles br (Many fs) s = (Inr fs, s)"
  by (simp_all add: listRemoteFiles_def resolve_def)

lemma listRemoteFiles_pattern:
  assumes "shellF (sdbWrapper br) (''ls -1 -c '' @ pat) (world s) = (Inr out, w1)"
  shows "listRemoteFiles br (Pattern pat filt) s =
           (Inr (if filt = Some ''latest'' then [hd (split_nl (clean_stdout out))]
                 else split_nl (clean_stdout out)),
            \<lparr>world = w1, trace = trace s @ [Sdb_shell (''ls -1 -c '' @ pat)]\<rparr>)"
  using assms
    call_out_result [where f = "shellF (sdbWrapper br) (''ls -1 -c '' @ pat)" and s = s
      and e = "Sdb_shell (''ls -1 -c '' @ pat)"]
  by (simp add: listRemoteFiles_def Let_def fail_do_def then_do_def resolve_def)

lemma clean_stdout_single_line_feed:
  "clean_stdout [CHR 0x0A] = []" "clean_stdout [CHR 0x0D, CHR 0x0A] = []"
  by (simp_all add: clean_stdout_def)

text \<open>
  Claim C7, run on a listing that consists of two empty lines.  The carriage returns
  are removed, but the output is not collapsed: the pattern \<^verbatim>\<open>/^\n$/g\<close> matches only
  an output of exactly one line feed.  The result is three empty file names, whereas
  the comment in the code promises an output without blank lines.
\<close>

theorem listRemoteFiles_keeps_blank_lines:
  "clean_stdout [CHR 0x0D, CHR 0x0A, CHR 0x0D, CHR 0x0A] = [CHR 0x0A, CHR 0x0A]
   \<and> fst (listRemoteFiles (scripted_bridge blank_listing) (Pattern ''/tmp/*.wgt'' None) start_state)
       = Inr ['''', '''', '''']"
  by (simp add: listRemoteFiles_def clean_stdout_def blank_listing_def run_defs)

section \<open>The cached metadata\<close>

lemma getMeta_cached_step:
  "configParsed c = Some m \<Longrightarrow> getMeta env c = (Inr m, c)"
  by (simp add: getMeta_def)

lemma run_ops_cached:
  "configParsed c = Some m \<Longrightarrow> run_ops env ops c = (rs, c') \<Longrightarrow>
     (\<forall>r \<in> set rs. r = Inr m) \<and> configParsed c' = Some m
     \<and> reads c' = reads c \<and> parses c' = parses c \<and> stores c' = stores c"
proof (induction ops arbitrary: c rs c')
  case Nil
  then show ?case by simp
next
  case (Cons op ops)
  show ?case
  proof (cases op)
    case GetMeta
    obtain rs1 c1 where rest: "run_ops env ops c = (rs1, c1)" by (cases "run_ops env ops c")
    with Cons.prems GetMeta have "rs = Inr m # rs1" "c' = c1"
      by (simp_all add: getMeta_cached_step)
    with Cons.IH [OF Cons.prems(1) rest] show ?thesis by simp
  next
    case (SetConfigFile f)
    with Cons.prems have "run_ops env ops (c\<lparr>configFile := f\<rparr>) = (rs, c')" by simp
    with Cons.IH [of "c\<lparr>configFile := f\<rparr>" rs c'] Cons.prems(1) show ?thesis by simp
  next
    case (TouchFiles g)
    with Cons.prems have "run_ops env ops (c\<lparr>fs_world := g (fs_world c)\<rparr>) = (rs, c')" by simp
    with Cons.IH [of "c\<lparr>fs_world := g (fs_world c)\<rparr>" rs c'] Cons.prems(1) show ?thesis by simp
  qed
qed

lemma getMeta_stores:
  "getMeta env c = (r, c') \<Longrightarrow>
     (configParsed c = None \<longrightarrow> stores c = 0) \<and> (configParsed c \<noteq> None \<longrightarrow> stores c = 1) \<Longrightarrow>
     (configParsed c' = None \<longrightarrow> stores c' = 0) \<and> (configParsed c' \<noteq> None \<longrightarrow> stores c' = 1)"
  by (auto simp: getMeta_def split: option.splits prod.splits sum.splits)

lemma run_ops_stores:
  "run_ops env ops c = (rs, c') \<Longrightarrow>
     (configParsed c = None \<longrightarrow> stores c = 0) \<and> (configParsed c \<noteq> None \<longrightarrow> stores c = 1) \<Longrightarrow>
     (configParsed c' = None \<longrightarrow> stores c' = 0) \<and> (configParsed c' \<noteq> None \<longrightarrow> stores c' = 1)"
proof (induction ops arbitrary: c rs c')
  case Nil
  then show ?case by simp
next
  case (Cons op ops)
  show ?case
  proof (cases op)
    case GetMeta
    obtain r c1 where g: "getMeta env c = (r, c1)" by (cases "getMeta env c")
    obtain rs1 c2 where rest: "run_ops env ops c1 = (rs1, c2)" by (cases "run_ops env ops c1")
    from Cons.prems(1) GetMeta g rest have "c' = c2" by simp
    with Cons.IH [OF rest getMeta_stores [OF g Cons.prems(2)]] show ?thesis by simp
  next
    case (SetConfigFile f)
    with Cons.prems(1) have "run_ops env ops (c\<lparr>configFile := f\<rparr>) = (rs, c')" by simp
    from Cons.IH [OF this] Cons.prems(2) show ?thesis by simp
  next
    case (TouchFiles g)
    with Cons.prems(1) have "run_ops env ops (c\<lparr>fs_world := g (fs_world c)\<rparr>) = (rs, c')" by simp
    from Cons.IH [OF this] Cons.prems(2) show ?thesis by simp
  qed
qed

lemma getMeta_success_caches: "getMeta env c = (Inr m, c') \<Longrightarrow> configParsed c' = Some m"
  by (auto simp: getMeta_def split: option.splits prod.splits sum.splits)

text \<open>
  Claim C9 as stated fails: "parses the file at most once per config object" does not
  hold when a parse fails.  Here the file can be read but does not parse; nothing is
  cached, and two \<open>getMeta\<close> calls on one config object read the file twice and parse it
  twice.
\<close>

theorem getMeta_parses_again_after_failure:
  "\<not> parses (snd (run_ops broken_document_env [GetMeta, GetMeta]
                    (TizenConfig (Some ''config.xml'') ()))) \<le> 1"
  by (simp add: getMeta_def TizenConfig_def broken_document_env_def truthy_def)

text \<open>
  Claim C9, amended.  Take a config object fresh from its constructor and any sequence
  of \<open>getMeta\<close> calls, assignments to \<open>configFile\<close> and changes of the files.  Once a
  \<open>getMeta\<close> call has returned metadata, every later \<open>getMeta\<close> call returns the same
  metadata, and the file is neither read nor parsed again, whatever is assigned to
  \<open>configFile\<close> in between; over the whole life of the object the metadata is stored at
  most once.
\<close>

theorem getMeta_cached:
  assumes "run_ops env ops1 (TizenConfig f w) = (rs1, c1)"
    and "getMeta env c1 = (Inr m, c2)"
    and "run_ops env ops2 c2 = (rs2, c3)"
  shows "(\<forall>r \<in> set rs2. r = Inr m) \<and> reads c3 = reads c2 \<and> parses c3 = parses c2
         \<and> stores c1 \<le> 1 \<and> stores c3 \<le> 1"
proof -
  have inv0: "(configParsed (TizenConfig f w) = None \<longrightarrow> stores (TizenConfig f w) = 0)
              \<and> (configParsed (TizenConfig f w) \<noteq> None \<longrightarrow> stores (TizenConfig f w) = 1)"
    by (simp add: TizenConfig_def)
  note inv1 = run_ops_stores [OF assms(1) inv0]
  note inv2 = getMeta_stores [OF assms(2) inv1]
  note cached = getMeta_success_caches [OF assms(2)]
  with inv2 have "stores c2 = 1" by simp
  moreover from inv1 have "stores c1 \<le> 1" by (cases "configParsed c1") simp_all
  ultimately show ?thesis using run_ops_cached [OF cached assms(3)] by simp
qed

theorem getMeta_cached_witness:
  "run_ops single_file_env [] (TizenConfig (Some ''config.xml'') ())
     = ([], TizenConfig (Some ''config.xml'') ())
   \<and> fst (getMeta single_file_env (TizenConfig (Some ''config.xml'') ())) = Inr some_meta
   \<and> fst (run_ops single_file_env [SetConfigFile None, GetMeta]
            (snd (getMeta single_file_env (TizenConfig (Some ''config.xml'') ()))))
       = [Inr some_meta]
   \<and> reads (snd (run_ops single_file_env [SetConfigFile None, GetMeta]
            (snd (getMeta single_file_env (TizenConfig (Some ''config.xml'') ()))))) = 1
   \<and> parses (snd (run_ops single_file_env [SetConfigFile None, GetMeta]
            (snd (getMeta single_file_env (TizenConfig (Some ''config.xml'') ()))))) = 1"
proof -
  let ?c1 = "TizenConfig (Some ''config.xml'') ()"
  let ?c2 = "snd (getMeta single_file_env ?c1)"
  let ?ops = "[SetConfigFile None, GetMeta]"
  have a: "run_ops single_file_env [] ?c1 = ([], ?c1)" by simp
  have g: "fst (getMeta single_file_env ?c1) = Inr some_meta"
    by (simp add: getMeta_def TizenConfig_def single_file_env_def truthy_def)
  then have b: "getMeta single_file_env ?c1 = (Inr some_meta, ?c2)"
    by (simp add: prod_eq_iff)
  have c: "run_ops single_file_env ?ops ?c2
             = (fst (run_ops single_file_env ?ops ?c2), snd (run_ops single_file_env ?ops ?c2))"
    by simp
  have n: "length (fst (run_ops single_file_env ?ops ?c2)) = 1"
    by (simp split: prod.splits)
  have r2: "reads ?c2 = 1" "parses ?c2 = 1"
    by (simp_all add: getMeta_def TizenConfig_def single_file_env_def truthy_def)
  from getMeta_cached [OF a b c] n r2
  have "fst (run_ops single_file_env ?ops ?c2) = [Inr some_meta]
        \<and> reads (snd (run_ops single_file_env ?ops ?c2)) = 1
        \<and> parses (snd (run_ops single_file_env ?ops ?c2)) = 1"
    by (cases "fst (run_ops single_file_env ?ops ?c2)") auto
  with a g show ?thesis by simp
qed

end
